theory Spec2Isabelle
  imports Complex_Main "HOL-Library.Stream"
begin

section \<open>The weathering map (WeatherMap.js)\<close>

text \<open>
  The class \<^verbatim>\<open>WeatheringMap\<close> holds four datasets and three weathering rates, derives
  slope and aspect from the elevation dataset, and projects the elevation grid into the
  future: a clone of the grid is lowered cell by cell, then eroded and filled up again.

  JavaScript numbers are modelled as real numbers: the arithmetic of the source is kept
  operation by operation, its rounding is not. Indices and grid sizes are natural numbers.
\<close>

subsection \<open>Arrays and the store\<close>

text \<open>
  \<^verbatim>\<open>elevationData\<close> is an array of row arrays, and the rows are mutated in place
  (\<^verbatim>\<open>elevationData[y][x] -= ...\<close>), so two terrain objects that hold the same row share
  every write to it. The store keeps the row arrays, a row's address being its position;
  an outer array is the list of the addresses of its rows (no method assigns to an outer
  array). A new array is put at the end of the store.
\<close>

type_synonym addr = nat
type_synonym store = "real list list"

definition deref :: "store \<Rightarrow> addr list \<Rightarrow> real list list" where
  "deref s rs = map (\<lambda>a. s ! a) rs"

record terrain =
  width :: nat
  height :: nat
  cellSize :: real
  elevationData :: "addr list"

record climate =
  temperature :: real
  tempRange :: real
  precipitation :: real
  freezeThawCycles :: real
  pH :: real

record geology =
  rockType :: string
  mineralComposition :: "(string \<times> real) list"

record vegetation =
  coverage :: real
  rootDepth :: real

record datasets =
  elevation :: terrain
  geology :: geology
  climate :: climate
  vegetation :: vegetation

record rates =
  physical :: real
  chemical :: real
  biological :: real

text \<open>The object itself, once \<^verbatim>\<open>loadDatasets\<close> has filled every dataset in.\<close>

record weatheringMap =
  datasets :: datasets
  weatheringRates :: rates

text \<open>
  The grid a terrain object describes in a store; on it the rows are as many as
  \<^verbatim>\<open>height\<close> says and each is \<^verbatim>\<open>width\<close> long, and the cell size is positive.
  On such a grid every index the methods below use is in range.
\<close>

definition wf_terrain :: "store \<Rightarrow> terrain \<Rightarrow> bool" where
  "wf_terrain s t \<longleftrightarrow>
     length (elevationData t) = height t \<and>
     list_all (\<lambda>a. a < length s \<and> length (s ! a) = width t) (elevationData t) \<and>
     0 < cellSize t"

subsection \<open>Weathering rates\<close>

text \<open>
  A number that can be \<^verbatim>\<open>NaN\<close>. The elevations and the datasets hold real numbers;
  \<^verbatim>\<open>NaN\<close> arises below, where a table is read at a name it inherits.
\<close>

type_synonym number = "real option"

abbreviation Num :: "real \<Rightarrow> number" where
  "Num \<equiv> Some"

abbreviation NaN :: number where
  "NaN \<equiv> None"

text \<open>
  The two tables are object literals, and \<^verbatim>\<open>table[key]\<close> finds more than the entries
  written in them: failing an entry, it finds the member of that name that every object
  inherits from \<^verbatim>\<open>Object.prototype\<close>, a function or (for \<^verbatim>\<open>__proto__\<close>) an object;
  failing that, it is \<^verbatim>\<open>undefined\<close>. An inherited member is truthy, and as a number
  it is \<^verbatim>\<open>NaN\<close>.
\<close>

datatype member = Absent | Entry real | Inherited

definition objectPrototype :: "string list" where
  "objectPrototype =
     [''constructor'', ''__defineGetter__'', ''__defineSetter__'', ''hasOwnProperty'',
      ''__lookupGetter__'', ''__lookupSetter__'', ''isPrototypeOf'',
      ''propertyIsEnumerable'', ''toString'', ''valueOf'', ''__proto__'',
      ''toLocaleString'']"

definition getMember :: "(string \<times> real) list \<Rightarrow> string \<Rightarrow> member" where
  "getMember table key =
     (case map_of table key of
        Some v \<Rightarrow> Entry v
      | None \<Rightarrow> if key \<in> set objectPrototype then Inherited else Absent)"

definition rockHardnessIndex :: "string \<Rightarrow> member" where
  "rockHardnessIndex = getMember
     [(''granite'', 0.2), (''limestone'', 0.6), (''sandstone'', 0.8), (''shale'', 0.9)]"

text \<open>
  \<^verbatim>\<open>a || b\<close>, used as a factor: \<^verbatim>\<open>b\<close> when \<^verbatim>\<open>a\<close> is undefined or zero, the entry
  when there is one, and \<^verbatim>\<open>NaN\<close> when \<^verbatim>\<open>a\<close> is an inherited member.
\<close>

definition orElse :: "member \<Rightarrow> real \<Rightarrow> number" where
  "orElse a b =
     (case a of Absent \<Rightarrow> Num b | Entry v \<Rightarrow> if v = 0 then Num b else Num v | Inherited \<Rightarrow> NaN)"

definition calculatePhysicalWeathering :: "real \<Rightarrow> real \<Rightarrow> real \<Rightarrow> string \<Rightarrow> number" where
  "calculatePhysicalWeathering tempRange' freezeThawCycles' precipitation' rockType' =
     (let hardness = orElse (rockHardnessIndex rockType') 0.5;
          tempFactor = tempRange' / 40;
          freezeThawFactor = freezeThawCycles' / 100;
          precipFactor = precipitation' / 2000
      in map_option
           (\<lambda>hardness. (tempFactor * 0.4 + freezeThawFactor * 0.4 + precipFactor * 0.2) * hardness)
           hardness)"

definition reactivityIndex :: "string \<Rightarrow> member" where
  "reactivityIndex = getMember
     [(''quartz'', 0.1), (''feldspar'', 0.7), (''mica'', 0.5), (''calcite'', 0.9),
      (''dolomite'', 0.8)]"

text \<open>
  The composition is the list \<^verbatim>\<open>Object.entries\<close> gives, in its order. The test
  \<^verbatim>\<open>if (reactivityIndex[mineral])\<close> passes for an entry that is not zero and for an
  inherited member; the product with an inherited member is \<^verbatim>\<open>NaN\<close>, and so is the
  total from then on.
\<close>

definition mineralStep :: "string \<times> real \<Rightarrow> number \<times> real \<Rightarrow> number \<times> real" where
  "mineralStep e acc =
     (case e of (mineral, percentage) \<Rightarrow>
      case acc of (totalReactivity, totalPercentage) \<Rightarrow>
        (case reactivityIndex mineral of
           Absent \<Rightarrow> (totalReactivity, totalPercentage)
         | Entry r \<Rightarrow>
             if r \<noteq> 0
             then (map_option (\<lambda>t. t + r * percentage) totalReactivity,
                   totalPercentage + percentage)
             else (totalReactivity, totalPercentage)
         | Inherited \<Rightarrow> (NaN, totalPercentage + percentage)))"

definition calculateMineralReactivity :: "(string \<times> real) list \<Rightarrow> number" where
  "calculateMineralReactivity mineralComposition' =
     (case fold mineralStep mineralComposition' (Num 0, 0) of
        (totalReactivity, totalPercentage) \<Rightarrow>
          if totalPercentage > 0 then map_option (\<lambda>t. t / totalPercentage) totalReactivity
          else Num 0.5)"





definition calculateChemicalWeathering ::
  "real \<Rightarrow> real \<Rightarrow> (string \<times> real) list \<Rightarrow> real \<Rightarrow> number" where
  "calculateChemicalWeathering precipitation' temperature' mineralComposition' pH' =
     (let tempFactor = min (temperature' / 30) 1;
          precipFactor = min (precipitation' / 2000) 1;
          mineralFactor = calculateMineralReactivity mineralComposition';
          pHFactor = \<bar>pH' - 7\<bar> / 7
      in map_option
           (\<lambda>mineralFactor.
              tempFactor * 0.3 + precipFactor * 0.3 + mineralFactor * 0.3 + pHFactor * 0.1)
           mineralFactor)"

definition calculateBiologicalWeathering :: "real \<Rightarrow> real \<Rightarrow> real \<Rightarrow> real" where
  "calculateBiologicalWeathering vegetationCoverage rootDepth' temperature' =
     (let coverageFactor = vegetationCoverage / 100;
          rootFactor = rootDepth' / 10;
          tempFactor = 1 - \<bar>temperature' - 25\<bar> / 25
      in coverageFactor * 0.4 + rootFactor * 0.3 + tempFactor * 0.3)"

text \<open>
  The rates of the object are real numbers. Where the physical or the chemical rate comes
  out as \<^verbatim>\<open>NaN\<close> the result is \<open>None\<close>: a projection from such rates is not modelled.
\<close>

definition calculateWeatheringRates :: "weatheringMap \<Rightarrow> weatheringMap option" where
  "calculateWeatheringRates m =
     (let c = climate (datasets m); g = geology (datasets m); v = vegetation (datasets m)
      in case calculatePhysicalWeathering (tempRange c) (freezeThawCycles c)
                (precipitation c) (rockType g) of
           None \<Rightarrow> None
         | Some physical' \<Rightarrow>
             (case calculateChemicalWeathering (precipitation c) (temperature c)
                     (mineralComposition g) (pH c) of
                None \<Rightarrow> None
              | Some chemical' \<Rightarrow>
                  Some (m\<lparr>weatheringRates :=
                          \<lparr>physical = physical',
                           chemical = chemical',
                           biological = calculateBiologicalWeathering (coverage v) (rootDepth v)
                                          (temperature c)\<rparr>\<rparr>)))"

definition calculateTotalWeatheringRate :: "weatheringMap \<Rightarrow> real" where
  "calculateTotalWeatheringRate m =
     (physical (weatheringRates m) * 0.4 + chemical (weatheringRates m) * 0.4
        + biological (weatheringRates m) * 0.2) / 1000"

subsection \<open>Time steps\<close>

definition determineTimeSteps :: "real \<Rightarrow> real list" where
  "determineTimeSteps maxYears =
     (if maxYears \<le> 100 then filter (\<lambda>t. t \<le> maxYears) [0, 10, 25, 50, 100]
      else if maxYears \<le> 1000 then filter (\<lambda>t. t \<le> maxYears) [0, 100, 250, 500, 1000]
      else filter (\<lambda>t. t \<le> maxYears) [0, 1000, 5000, 10000, 50000, 100000])"

subsection \<open>Slope and aspect\<close>

text \<open>
  \<^verbatim>\<open>Math.atan2(y, x)\<close> on real numbers: the angle of the point \<open>(x, y)\<close> in
  \<open>(-\<pi>, \<pi>]\<close>, and 0 at the origin. The real numbers have one zero: where JavaScript
  gives \<open>-\<pi>\<close> for a negative zero \<open>y\<close> and a negative \<open>x\<close>, this gives \<open>\<pi>\<close>,
  an angle with the same sine.
\<close>

definition atan2 :: "real \<Rightarrow> real \<Rightarrow> real" where
  "atan2 y x =
     (if 0 < x then arctan (y / x)
      else if x < 0 then (if 0 \<le> y then arctan (y / x) + pi else arctan (y / x) - pi)
      else if 0 < y then pi / 2
      else if y < 0 then - (pi / 2)
      else 0)"

text \<open>
  Both methods read \<^verbatim>\<open>this.datasets.elevation\<close>, whatever grid the caller is working
  on; \<^verbatim>\<open>x === terrain[0].length - 1\<close> is written \<open>Suc x = length (terrain ! 0)\<close>.
\<close>

definition calculateSlope :: "store \<Rightarrow> weatheringMap \<Rightarrow> nat \<Rightarrow> nat \<Rightarrow> real" where
  "calculateSlope s m x y =
     (let terrain = deref s (elevationData (elevation (datasets m)));
          cellSize' = cellSize (elevation (datasets m))
      in if x = 0 \<or> y = 0 \<or> Suc x = length (terrain ! 0) \<or> Suc y = length terrain then 0
         else
           let dz_dx = (terrain ! y ! (x + 1) - terrain ! y ! (x - 1)) / (2 * cellSize');
               dz_dy = (terrain ! (y + 1) ! x - terrain ! (y - 1) ! x) / (2 * cellSize')
           in arctan (sqrt (dz_dx * dz_dx + dz_dy * dz_dy)) * (180 / pi))"

definition calculateAspect :: "store \<Rightarrow> weatheringMap \<Rightarrow> nat \<Rightarrow> nat \<Rightarrow> real" where
  "calculateAspect s m x y =
     (let terrain = deref s (elevationData (elevation (datasets m)))
      in if x = 0 \<or> y = 0 \<or> Suc x = length (terrain ! 0) \<or> Suc y = length terrain then 0
         else
           let dz_dx = terrain ! y ! (x + 1) - terrain ! y ! (x - 1);
               dz_dy = terrain ! (y + 1) ! x - terrain ! (y - 1) ! x
           in atan2 (- dz_dy) dz_dx)"

text \<open>
  The specification's terrain sampler takes the grid as an argument: centred differences
  divided by twice the cell size, 0 on the border. These two definitions follow the
  specification's words, for comparison with the two methods above.
\<close>

definition slopeDegrees :: "real list list \<Rightarrow> real \<Rightarrow> nat \<Rightarrow> nat \<Rightarrow> real" where
  "slopeDegrees z c x y =
     (if x = 0 \<or> y = 0 \<or> Suc x = length (z ! 0) \<or> Suc y = length z then 0
      else
        let dzdx = (z ! y ! (x + 1) - z ! y ! (x - 1)) / (2 * c);
            dzdy = (z ! (y + 1) ! x - z ! (y - 1) ! x) / (2 * c)
        in arctan (sqrt (dzdx\<^sup>2 + dzdy\<^sup>2)) * (180 / pi))"


subsection \<open>Weathering of one cell\<close>

definition calculateElevationFactor :: "real \<Rightarrow> real" where
  "calculateElevationFactor elevation' =
     (let baseElevation = 500
      in if elevation' < baseElevation then 1.0
         else
           let elevationDiff = elevation' - baseElevation
           in 1.0 + (elevationDiff / 2000) * 0.5)"

definition calculateCellWeathering ::
  "store \<Rightarrow> weatheringMap \<Rightarrow> nat \<Rightarrow> nat \<Rightarrow> real \<Rightarrow> real" where
  "calculateCellWeathering s m x y baseWeatheringIntensity =
     (let slope = calculateSlope s m x y;
          aspect = calculateAspect s m x y;
          elevation' = deref s (elevationData (elevation (datasets m))) ! y ! x;
          slopeFactor = 1 + slope / 45;
          aspectFactor = 1 + sin aspect * 0.2;
          elevationFactor = calculateElevationFactor elevation'
      in baseWeatheringIntensity * slopeFactor * aspectFactor * elevationFactor)"

subsection \<open>Cloning and writing cells\<close>

text \<open>
  \<^verbatim>\<open>JSON.parse(JSON.stringify(...))\<close> builds new rows with the old contents: the copies
  are put at the end of the store, and the clone's outer array lists their addresses.
\<close>

definition cloneTerrainModel :: "store \<Rightarrow> terrain \<Rightarrow> store \<times> terrain" where
  "cloneTerrainModel s originalTerrain =
     (let rows = deref s (elevationData originalTerrain)
      in (s @ rows,
          \<lparr>width = width originalTerrain,
           height = height originalTerrain,
           cellSize = cellSize originalTerrain,
           elevationData = [length s ..< length s + length rows]\<rparr>))"

text \<open>\<^verbatim>\<open>t.elevationData[y][x] -= v\<close> and \<^verbatim>\<open>t.elevationData[y][x] += v\<close>.\<close>

definition subCell :: "store \<Rightarrow> terrain \<Rightarrow> nat \<Rightarrow> nat \<Rightarrow> real \<Rightarrow> store" where
  "subCell s t x y v =
     (let a = elevationData t ! y in s[a := (s ! a)[x := s ! a ! x - v]])"

definition addCell :: "store \<Rightarrow> terrain \<Rightarrow> nat \<Rightarrow> nat \<Rightarrow> real \<Rightarrow> store" where
  "addCell s t x y v =
     (let a = elevationData t ! y in s[a := (s ! a)[x := s ! a ! x + v]])"

subsection \<open>Erosion and deposition\<close>

text \<open>
  \<^verbatim>\<open>Math.random()\<close> takes the next number of a stream. The direction and accumulation
  arrays are made inside these methods and handed to no one else, so they are values.
\<close>

definition calculateFlowDirections ::
  "real stream \<Rightarrow> terrain \<Rightarrow> int list list \<times> real stream" where
  "calculateFlowDirections rnd terrainModel =
     (let width' = width terrainModel;
          height' = height terrainModel;
          directions = replicate height' (replicate width' 0)
      in fold (\<lambda>y. fold (\<lambda>x (d, r). (d[y := (d ! y)[x := \<lfloor>shd r * 8\<rfloor>]], stl r)) [0..<width'])
           [0..<height'] (directions, rnd))"

definition calculateFlowAccumulation :: "int list list \<Rightarrow> terrain \<Rightarrow> real list list" where
  "calculateFlowAccumulation flowDirections terrainModel =
     (let width' = width terrainModel;
          height' = height terrainModel;
          accumulation = replicate height' (replicate width' 1)
      in accumulation)"

definition erodeCell ::
  "weatheringMap \<Rightarrow> terrain \<Rightarrow> real list list \<Rightarrow> real \<Rightarrow> nat \<Rightarrow> nat \<Rightarrow> store \<Rightarrow> store" where
  "erodeCell m terrainModel flowAccumulation erosionRate y x s =
     (let slope = calculateSlope s m x y;
          accumulation = flowAccumulation ! y ! x;
          erosionAmount = erosionRate * sqrt accumulation * (slope / 45)
      in subCell s terrainModel x y erosionAmount)"

definition applyErosion ::
  "store \<Rightarrow> weatheringMap \<Rightarrow> terrain \<Rightarrow> real list list \<Rightarrow> real \<Rightarrow> store" where
  "applyErosion s m terrainModel flowAccumulation years =
     (let erosionRate = 0.00005 * years
      in fold (\<lambda>y. fold (erodeCell m terrainModel flowAccumulation erosionRate y)
                     [0..<width terrainModel])
           [0..<height terrainModel] s)"

definition depositCell ::
  "weatheringMap \<Rightarrow> terrain \<Rightarrow> real list list \<Rightarrow> real \<Rightarrow> nat \<Rightarrow> nat \<Rightarrow> store \<Rightarrow> store" where
  "depositCell m terrainModel flowAccumulation depositionRate y x s =
     (let slope = calculateSlope s m x y;
          accumulation = flowAccumulation ! y ! x;
          depositionAmount = depositionRate * sqrt accumulation * (1 - slope / 90)
      in if slope < 10 then addCell s terrainModel x y (max 0 depositionAmount) else s)"

definition applyDeposition ::
  "store \<Rightarrow> weatheringMap \<Rightarrow> terrain \<Rightarrow> real list list \<Rightarrow> real \<Rightarrow> store" where
  "applyDeposition s m terrainModel flowAccumulation years =
     (let depositionRate = 0.00002 * years
      in fold (\<lambda>y. fold (depositCell m terrainModel flowAccumulation depositionRate y)
                     [0..<width terrainModel])
           [0..<height terrainModel] s)"

definition simulateErosion ::
  "real stream \<Rightarrow> store \<Rightarrow> weatheringMap \<Rightarrow> terrain \<Rightarrow> real \<Rightarrow> store \<times> real stream" where
  "simulateErosion rnd s m terrainModel years =
     (case calculateFlowDirections rnd terrainModel of
        (flowDirections, rnd') \<Rightarrow>
          let flowAccumulation = calculateFlowAccumulation flowDirections terrainModel;
              s1 = applyErosion s m terrainModel flowAccumulation years;
              s2 = applyDeposition s1 m terrainModel flowAccumulation years
          in (s2, rnd'))"

subsection \<open>Projection\<close>

definition weatherCell ::
  "weatheringMap \<Rightarrow> terrain \<Rightarrow> real \<Rightarrow> nat \<Rightarrow> nat \<Rightarrow> store \<Rightarrow> store" where
  "weatherCell m weatheredTerrain weatheringIntensity x y s =
     (let cellWeathering = calculateCellWeathering s m x y weatheringIntensity
      in subCell s weatheredTerrain x y cellWeathering)"

text \<open>The loop of \<^verbatim>\<open>projectWeathering\<close>: columns outside, rows inside.\<close>

definition weatherAll :: "weatheringMap \<Rightarrow> terrain \<Rightarrow> real \<Rightarrow> store \<Rightarrow> store" where
  "weatherAll m weatheredTerrain weatheringIntensity s =
     fold (\<lambda>x. fold (weatherCell m weatheredTerrain weatheringIntensity x)
                  [0..<height weatheredTerrain])
       [0..<width weatheredTerrain] s"

text \<open>The result is the new terrain object, the store and the rest of the random stream.\<close>

definition projectWeathering ::
  "real stream \<Rightarrow> store \<Rightarrow> weatheringMap \<Rightarrow> real \<Rightarrow> terrain \<times> store \<times> real stream" where
  "projectWeathering rnd s m years =
     (case cloneTerrainModel s (elevation (datasets m)) of
        (s0, weatheredTerrain) \<Rightarrow>
          let totalWeatheringRate = calculateTotalWeatheringRate m;
              weatheringIntensity = years * totalWeatheringRate;
              s1 = weatherAll m weatheredTerrain weatheringIntensity s0
          in case simulateErosion rnd s1 m weatheredTerrain years of
               (s2, rnd') \<Rightarrow> (weatheredTerrain, s2, rnd'))"

text \<open>\<^verbatim>\<open>models\<close> is the list of the entries \<^verbatim>\<open>models[timeStep] = ...\<close>, in the order made.\<close>

definition generateWeatheringModels ::
  "real stream \<Rightarrow> store \<Rightarrow> weatheringMap \<Rightarrow> real
     \<Rightarrow> (real \<times> terrain) list \<times> store \<times> real stream" where
  "generateWeatheringModels rnd s m years =
     (let timeSteps = determineTimeSteps years
      in fold (\<lambda>timeStep (models, s', rnd').
                 case projectWeathering rnd' s' m timeStep of
                   (t, s'', rnd'') \<Rightarrow> (models @ [(timeStep, t)], s'', rnd''))
           timeSteps ([], s, rnd))"

subsection \<open>Sample data\<close>

text \<open>
  A map whose three rates are each one half, so that the total rate is 1/2000 a year.
  They are the rates \<^verbatim>\<open>calculateWeatheringRates\<close> gives for its datasets: an unlisted
  rock, mica only, freezing average temperature, acid rain.
\<close>

definition demoMap :: "terrain \<Rightarrow> weatheringMap" where
  "demoMap t =
     \<lparr>datasets =
        \<lparr>elevation = t,
         geology = \<lparr>rockType = ''basalt'', mineralComposition = [(''mica'', 1)]\<rparr>,
         climate = \<lparr>temperature = 0, tempRange = 40, precipitation = 2000,
                    freezeThawCycles = 100, pH = 3.5\<rparr>,
         vegetation = \<lparr>coverage = 50, rootDepth = 10\<rparr>\<rparr>,
      weatheringRates = \<lparr>physical = 0.5, chemical = 0.5, biological = 0.5\<rparr>\<rparr>"

text \<open>A 3 by 3 grid that rises to the east along its middle row, and a flat one.\<close>

definition hillStore :: store where
  "hillStore = [[0, 0, 0], [0, 1250, 2500], [0, 0, 0]]"

definition hillTerrain :: terrain where
  "hillTerrain = \<lparr>width = 3, height = 3, cellSize = 1250, elevationData = [0, 1, 2]\<rparr>"

definition flatStore :: store where
  "flatStore = [[100, 100, 100], [100, 100, 100], [100, 100, 100]]"

definition flatTerrain :: terrain where
  "flatTerrain = \<lparr>width = 3, height = 3, cellSize = 2, elevationData = [0, 1, 2]\<rparr>"

text \<open>
  The clone \<^verbatim>\<open>projectWeathering\<close> makes of the hill, and the store when its loop has
  weathered every cell for 2000 years: the state in which the erosion pass starts.
\<close>

definition hillClone :: "store \<times> terrain" where
  "hillClone = cloneTerrainModel hillStore (elevation (datasets (demoMap hillTerrain)))"

definition hillWeathered :: store where
  "hillWeathered =
     weatherAll (demoMap hillTerrain) (snd hillClone)
       (2000 * calculateTotalWeatheringRate (demoMap hillTerrain)) (fst hillClone)"

text \<open>
  A 4 by 3 grid with two cells inside, handed to the two passes as it is, not as a clone:
  the passes then change the very rows the slope is read from.
\<close>

definition ridgeStore :: store where
  "ridgeStore = [[0, 0, 0, 0], [0, 5 / 2, 0, 0], [1, 1, 1, 1]]"

definition ridgeTerrain :: terrain where
  "ridgeTerrain = \<lparr>width = 4, height = 3, cellSize = 1 / 2, elevationData = [0, 1, 2]\<rparr>"

subsection \<open>Notions used in the statements and proofs\<close>

text \<open>One write \<^verbatim>\<open>row[k] = f(row[k])\<close> to the row at address \<open>a\<close>.\<close>

definition updCell :: "addr \<times> nat \<Rightarrow> (real \<Rightarrow> real) \<Rightarrow> store \<Rightarrow> store" where
  "updCell l f s = (case l of (a, k) \<Rightarrow> s[a := (s ! a)[k := f (s ! a ! k)]])"

text \<open>
  A terrain object whose rows are its own: both grids are well formed, no row of
  \<open>t\<close> occurs twice in it, and none is a row of the base grid. A clone is such.
\<close>

definition detached :: "store \<Rightarrow> terrain \<Rightarrow> terrain \<Rightarrow> bool" where
  "detached s base t \<longleftrightarrow>
     wf_terrain s base \<and> wf_terrain s t \<and> width t = width base \<and> height t = height base \<and>
     distinct (elevationData t) \<and>
     list_all (\<lambda>a. a \<notin> set (elevationData base)) (elevationData t)"

text \<open>Every number of \<open>s'\<close> is at most the number at the same place of \<open>s\<close>.\<close>

definition store_le :: "store \<Rightarrow> store \<Rightarrow> bool" where
  "store_le s' s \<longleftrightarrow>
     length s' = length s \<and>
     list_all (\<lambda>a. length (s' ! a) = length (s ! a) \<and>
                  list_all (\<lambda>k. s' ! a ! k \<le> s ! a ! k) [0..<length (s ! a)])
       [0..<length s]"

section \<open>Properties\<close>

subsection \<open>Reading the store\<close>

lemma length_deref [simp]: "length (deref s rs) = length rs"
  by (simp add: deref_def)

lemma nth_deref [simp]: "i < length rs \<Longrightarrow> deref s rs ! i = s ! (rs ! i)"
  by (simp add: deref_def)

lemma elevation_demoMap [simp]: "elevation (datasets (demoMap t)) = t"
  by (simp add: demoMap_def)

lemma demoMap_rates: "calculateWeatheringRates (demoMap t) = Some (demoMap t)"
  by (simp add: demoMap_def calculateWeatheringRates_def calculatePhysicalWeathering_def
      rockHardnessIndex_def getMember_def objectPrototype_def orElse_def
      calculateChemicalWeathering_def calculateMineralReactivity_def mineralStep_def
      reactivityIndex_def calculateBiologicalWeathering_def Let_def)

lemma wf_hill: "wf_terrain hillStore hillTerrain"
  by (simp add: wf_terrain_def hillStore_def hillTerrain_def)

lemma wf_flat: "wf_terrain flatStore flatTerrain"
  by (simp add: wf_terrain_def flatStore_def flatTerrain_def)

subsection \<open>Time steps\<close>

text \<open>
  C7. \<^verbatim>\<open>determineTimeSteps(maxYears)\<close> is the ladder chosen by range, \<open>[0,10,25,50,100]\<close>
  up to 100 years, \<open>[0,100,250,500,1000]\<close> up to 1000 years and
  \<open>[0,1000,5000,10000,50000,100000]\<close> beyond, filtered to the values that are at most
  \<^verbatim>\<open>maxYears\<close>, still in ascending order; for 75 years it is \<open>[0,10,25,50]\<close>.
\<close>

theorem determineTimeSteps_ladder:
  "determineTimeSteps maxYears =
     filter (\<lambda>t. t \<le> maxYears)
       (if maxYears \<le> 100 then [0, 10, 25, 50, 100]
        else if maxYears \<le> 1000 then [0, 100, 250, 500, 1000]
        else [0, 1000, 5000, 10000, 50000, 100000])
   \<and> sorted_wrt (<) (determineTimeSteps maxYears)
   \<and> determineTimeSteps 75 = [0, 10, 25, 50]"
proof -
  have "sorted_wrt (<) (determineTimeSteps maxYears)"
    unfolding determineTimeSteps_def by (auto intro!: sorted_wrt_filter)
  moreover have "determineTimeSteps 75 = [0, 10, 25, 50]"
    by (simp add: determineTimeSteps_def)
  ultimately show ?thesis by (simp add: determineTimeSteps_def)
qed

theorem determineTimeSteps_ladder_witness:
  "determineTimeSteps 300 = [0, 100, 250] \<and> determineTimeSteps 100 = [0, 10, 25, 50, 100]
   \<and> determineTimeSteps 1001 = [0, 1000]"
  using determineTimeSteps_ladder [of 300] determineTimeSteps_ladder [of 100]
    determineTimeSteps_ladder [of 1001]
  by simp

subsection \<open>Aspect\<close>




subsection \<open>The random draws\<close>

lemma calculateFlowAccumulation_const:
  "calculateFlowAccumulation d t = replicate (height t) (replicate (width t) 1)"
  by (simp add: calculateFlowAccumulation_def)

lemma simulateErosion_store:
  "fst (simulateErosion rnd s m t years) =
     applyDeposition (applyErosion s m t (replicate (height t) (replicate (width t) 1)) years)
       m t (replicate (height t) (replicate (width t) 1)) years"
  by (simp add: simulateErosion_def calculateFlowAccumulation_const Let_def split: prod.splits)

lemma projectWeathering_terrain:
  "fst (projectWeathering r s m years) = snd (cloneTerrainModel s (elevation (datasets m)))"
  by (simp add: projectWeathering_def Let_def split: prod.splits)

lemma projectWeathering_store:
  "fst (snd (projectWeathering r s m years)) =
     (case cloneTerrainModel s (elevation (datasets m)) of
        (s0, wt) \<Rightarrow>
          fst (simulateErosion r
                 (weatherAll m wt (years * calculateTotalWeatheringRate m) s0) m wt years))"
  by (simp add: projectWeathering_def Let_def split: prod.splits)

lemma projectWeathering_rnd:
  "fst (projectWeathering r1 s m years) = fst (projectWeathering r2 s m years)
   \<and> fst (snd (projectWeathering r1 s m years)) = fst (snd (projectWeathering r2 s m years))"
  by (simp add: projectWeathering_terrain projectWeathering_store simulateErosion_store
      split: prod.splits)

lemma generate_fold_rnd:
  "fst (fold (\<lambda>timeStep (models, s', rnd').
                 case projectWeathering rnd' s' m timeStep of
                   (t, s'', rnd'') \<Rightarrow> (models @ [(timeStep, t)], s'', rnd'')) ts (ms, s, r1))
   = fst (fold (\<lambda>timeStep (models, s', rnd').
                 case projectWeathering rnd' s' m timeStep of
                   (t, s'', rnd'') \<Rightarrow> (models @ [(timeStep, t)], s'', rnd'')) ts (ms, s, r2))
  \<and> fst (snd (fold (\<lambda>timeStep (models, s', rnd').
                 case projectWeathering rnd' s' m timeStep of
                   (t, s'', rnd'') \<Rightarrow> (models @ [(timeStep, t)], s'', rnd'')) ts (ms, s, r1)))
   = fst (snd (fold (\<lambda>timeStep (models, s', rnd').
                 case projectWeathering rnd' s' m timeStep of
                   (t, s'', rnd'') \<Rightarrow> (models @ [(timeStep, t)], s'', rnd'')) ts (ms, s, r2)))"
proof (induction ts arbitrary: ms s r1 r2)
  case Nil
  then show ?case by simp
next
  case (Cons a ts)
  obtain t1 s1 r1' where p1: "projectWeathering r1 s m a = (t1, s1, r1')"
    by (cases "projectWeathering r1 s m a") auto
  obtain t2 s2 r2' where p2: "projectWeathering r2 s m a = (t2, s2, r2')"
    by (cases "projectWeathering r2 s m a") auto
  from projectWeathering_rnd[of r1 s m a r2] p1 p2 have "t1 = t2" "s1 = s2" by simp_all
  then show ?case using Cons.IH[of "ms @ [(a, t2)]" s2 r1' r2'] p1 p2 by simp
qed

text \<open>
  C2. The grid \<^verbatim>\<open>projectWeathering\<close> returns, and so each grid of
  \<^verbatim>\<open>generateWeatheringModels\<close>, is a function of the datasets and the years alone: two
  runs that draw different random numbers in \<^verbatim>\<open>calculateFlowDirections\<close> end with the
  same terrain objects and the same store, for nothing reads the direction array and the
  flow accumulation is 1 at every cell.
\<close>

theorem projection_independent_of_random_draws:
  "fst (projectWeathering r1 s m years) = fst (projectWeathering r2 s m years)
   \<and> fst (snd (projectWeathering r1 s m years)) = fst (snd (projectWeathering r2 s m years))
   \<and> fst (generateWeatheringModels r1 s m years) = fst (generateWeatheringModels r2 s m years)
   \<and> fst (snd (generateWeatheringModels r1 s m years))
       = fst (snd (generateWeatheringModels r2 s m years))
   \<and> calculateFlowAccumulation d t = replicate (height t) (replicate (width t) 1)"
  using projectWeathering_rnd[of r1 s m years r2]
    generate_fold_rnd[of m "determineTimeSteps years" "[]" s r1 r2]
  by (simp add: generateWeatheringModels_def calculateFlowAccumulation_const)

theorem projection_independent_of_random_draws_witness:
  "fst (snd (projectWeathering (sconst 0.1) hillStore (demoMap hillTerrain) 2000))
     = fst (snd (projectWeathering (sconst 0.9) hillStore (demoMap hillTerrain) 2000))
   \<and> fst (calculateFlowDirections (sconst 0.1) hillTerrain)
       \<noteq> fst (calculateFlowDirections (sconst 0.9) hillTerrain)"
proof -
  have "fst (calculateFlowDirections (sconst 0.1) hillTerrain) = replicate 3 (replicate 3 0)"
    by (simp add: calculateFlowDirections_def hillTerrain_def upt_rec numeral_eq_Suc)
  moreover
  have "fst (calculateFlowDirections (sconst 0.9) hillTerrain) = replicate 3 (replicate 3 7)"
    by (simp add: calculateFlowDirections_def hillTerrain_def upt_rec numeral_eq_Suc)
  ultimately show ?thesis
    using projection_independent_of_random_draws
      [of "sconst 0.1" hillStore "demoMap hillTerrain" 2000 "sconst 0.9"]
    by (simp add: numeral_eq_Suc)
qed

subsection \<open>Writes to the store\<close>

lemma length_updCell [simp]: "length (updCell l f s) = length s"
  by (simp add: updCell_def split: prod.splits)

lemma row_updCell:
  "updCell (a, k) f s ! a' = (if a' = a \<and> a < length s then (s ! a)[k := f (s ! a ! k)] else s ! a')"
  by (cases "a' = a"; cases "a < length s") (simp_all add: updCell_def list_update_beyond)

lemma length_row_updCell [simp]: "length (updCell l f s ! a') = length (s ! a')"
  by (cases l) (simp add: row_updCell)

lemma nth_updCell:
  "a' < length s \<Longrightarrow> k' < length (s ! a') \<Longrightarrow>
   updCell l f s ! a' ! k' = (if l = (a', k') then f (s ! a' ! k') else s ! a' ! k')"
  by (cases l) (auto simp: row_updCell nth_list_update)

lemma subCell_updCell: "subCell s t x y v = updCell (elevationData t ! y, x) (\<lambda>u. u - v) s"
  by (simp add: subCell_def updCell_def Let_def)

lemma addCell_updCell: "addCell s t x y v = updCell (elevationData t ! y, x) (\<lambda>u. u + v) s"
  by (simp add: addCell_def updCell_def Let_def)

lemma deref_updCell:
  "a \<notin> set rs \<Longrightarrow> deref (updCell (a, k) f s) rs = deref s rs"
  by (auto simp: deref_def row_updCell)

text \<open>A loop of writes to different cells changes each of them once and nothing else.\<close>

lemma fold_updCell_length [simp]:
  "length (fold (\<lambda>c. updCell (loc c) (g c)) cs s) = length s"
  by (induction cs arbitrary: s) simp_all

lemma fold_updCell_row_length [simp]:
  "length (fold (\<lambda>c. updCell (loc c) (g c)) cs s ! a) = length (s ! a)"
  by (induction cs arbitrary: s) simp_all

lemma fold_updCell_other_row:
  "a \<notin> fst ` loc ` set cs \<Longrightarrow> fold (\<lambda>c. updCell (loc c) (g c)) cs s ! a = s ! a"
proof (induction cs arbitrary: s)
  case Nil
  then show ?case by simp
next
  case (Cons c cs)
  obtain a' k' where l: "loc c = (a', k')" by (cases "loc c")
  with Cons.prems have "a \<noteq> a'" by force
  with Cons show ?case by (simp add: l row_updCell)
qed

lemma fold_updCell_other:
  "a < length s \<Longrightarrow> k < length (s ! a) \<Longrightarrow> (a, k) \<notin> loc ` set cs \<Longrightarrow>
   fold (\<lambda>c. updCell (loc c) (g c)) cs s ! a ! k = s ! a ! k"
proof (induction cs arbitrary: s)
  case Nil
  then show ?case by simp
next
  case (Cons c cs)
  from Cons.prems have "loc c \<noteq> (a, k)" by auto
  with Cons show ?case by (simp add: nth_updCell)
qed

lemma fold_updCell_cell:
  "distinct cs \<Longrightarrow> inj_on loc (set cs) \<Longrightarrow> c \<in> set cs \<Longrightarrow> loc c = (a, k) \<Longrightarrow>
   a < length s \<Longrightarrow> k < length (s ! a) \<Longrightarrow>
   fold (\<lambda>c. updCell (loc c) (g c)) cs s ! a ! k = g c (s ! a ! k)"
proof (induction cs arbitrary: s)
  case Nil
  then show ?case by simp
next
  case (Cons d cs)
  show ?case
  proof (cases "c = d")
    case True
    with Cons.prems have "(a, k) \<notin> loc ` set cs"
      by (auto simp: inj_on_def)
    then have "fold (\<lambda>c. updCell (loc c) (g c)) cs (updCell (loc d) (g d) s) ! a ! k
        = updCell (loc d) (g d) s ! a ! k"
      using Cons.prems by (intro fold_updCell_other) simp_all
    with True Cons.prems show ?thesis by (simp add: nth_updCell)
  next
    case False
    with Cons.prems have c: "c \<in> set cs" and ne: "loc d \<noteq> (a, k)"
      by (auto simp: inj_on_def)
    have "fold (\<lambda>c. updCell (loc c) (g c)) cs (updCell (loc d) (g d) s) ! a ! k
        = g c (updCell (loc d) (g d) s ! a ! k)"
      using Cons.prems c by (intro Cons.IH) (simp_all add: inj_on_def)
    with ne Cons.prems show ?thesis by (simp add: nth_updCell)
  qed
qed

lemma fold_cong_inv:
  assumes "Inv s"
    and "\<And>c s. c \<in> set cs \<Longrightarrow> Inv s \<Longrightarrow> F c s = G c s"
    and "\<And>c s. c \<in> set cs \<Longrightarrow> Inv s \<Longrightarrow> Inv (G c s)"
  shows "fold F cs s = fold G cs s \<and> Inv (fold G cs s)"
  using assms
proof (induction cs arbitrary: s)
  case Nil
  then show ?case by simp
next
  case (Cons c cs)
  have "F c s = G c s" "Inv (G c s)" using Cons.prems by simp_all
  moreover have "fold F cs (G c s) = fold G cs (G c s) \<and> Inv (fold G cs (G c s))"
    using Cons.prems \<open>Inv (G c s)\<close> by (intro Cons.IH) simp_all
  ultimately show ?case by simp
qed

lemma fold_fold_product:
  "fold (\<lambda>i. fold (F i) js) is s = fold (\<lambda>(i, j). F i j) (List.product is js) s"
  by (induction "is" arbitrary: s) (simp_all add: fold_map comp_def)

subsection \<open>The three passes over a clone\<close>

lemma updCell_id [simp]: "updCell l (\<lambda>u. u) s = s"
  by (simp add: updCell_def split: prod.splits)

lemma wf_terrain_updCell [simp]: "wf_terrain (updCell l f s) t = wf_terrain s t"
  by (simp add: wf_terrain_def)

lemma detached_row:
  assumes "detached s base t" and "y < height t"
  shows "elevationData t ! y < length s"
    and "length (s ! (elevationData t ! y)) = width t"
    and "elevationData t ! y \<notin> set (elevationData base)"
  using assms by (auto simp: detached_def wf_terrain_def list_all_iff)

lemma calculateSlope_cong:
  "deref s' (elevationData (elevation (datasets m))) = deref s (elevationData (elevation (datasets m)))
   \<Longrightarrow> calculateSlope s' m x y = calculateSlope s m x y"
  by (simp add: calculateSlope_def)

lemma calculateAspect_cong:
  "deref s' (elevationData (elevation (datasets m))) = deref s (elevationData (elevation (datasets m)))
   \<Longrightarrow> calculateAspect s' m x y = calculateAspect s m x y"
  by (simp add: calculateAspect_def)

lemma calculateCellWeathering_cong:
  "deref s' (elevationData (elevation (datasets m))) = deref s (elevationData (elevation (datasets m)))
   \<Longrightarrow> calculateCellWeathering s' m x y w = calculateCellWeathering s m x y w"
  by (simp add: calculateCellWeathering_def calculateSlope_def calculateAspect_def)

lemma pass_fold:
  assumes F: "\<And>i j s'. i \<in> set is \<Longrightarrow> j \<in> set js \<Longrightarrow> deref s' B = deref s B
                \<Longrightarrow> F i j s' = updCell (loc (i, j)) (g (i, j)) s'"
    and B: "\<And>i j. i \<in> set is \<Longrightarrow> j \<in> set js \<Longrightarrow> fst (loc (i, j)) \<notin> set B"
  shows "fold (\<lambda>i. fold (F i) js) is s
           = fold (\<lambda>c. updCell (loc c) (g c)) (List.product is js) s
         \<and> deref (fold (\<lambda>c. updCell (loc c) (g c)) (List.product is js) s) B = deref s B"
proof -
  have "fold (\<lambda>(i, j). F i j) (List.product is js) s
          = fold (\<lambda>c. updCell (loc c) (g c)) (List.product is js) s
        \<and> deref (fold (\<lambda>c. updCell (loc c) (g c)) (List.product is js) s) B = deref s B"
  proof (rule fold_cong_inv [where Inv = "\<lambda>s'. deref s' B = deref s B"])
    show "deref s B = deref s B" ..
  next
    fix c s'
    assume c: "c \<in> set (List.product is js)" and inv: "deref s' B = deref s B"
    obtain i j where ij: "c = (i, j)" by (cases c)
    with c have "i \<in> set is" "j \<in> set js" by simp_all
    from F[OF this inv] show "(case c of (i, j) \<Rightarrow> F i j) s' = updCell (loc c) (g c) s'"
      by (simp add: ij)
  next
    fix c s'
    assume c: "c \<in> set (List.product is js)" and inv: "deref s' B = deref s B"
    obtain i j where ij: "c = (i, j)" by (cases c)
    with c have "i \<in> set is" "j \<in> set js" by simp_all
    from B[OF this] have nB: "fst (loc c) \<notin> set B" by (simp add: ij)
    obtain a k where l: "loc c = (a, k)" by (cases "loc c")
    with nB have "a \<notin> set B" by simp
    with inv l show "deref (updCell (loc c) (g c) s') B = deref s B"
      by (simp add: deref_updCell)
  qed
  then show ?thesis by (simp add: fold_fold_product)
qed

text \<open>The cell \<open>(x, y)\<close> of \<open>t\<close> in the store, for a loop that runs over the pairs \<open>(x, y)\<close>
  and one that runs over the pairs \<open>(y, x)\<close>.\<close>

lemma inj_on_cell_xy:
  "distinct rs \<Longrightarrow> inj_on (\<lambda>(x, y). (rs ! y, x)) ({0..<w} \<times> {0..<length rs})"
  by (auto simp: inj_on_def nth_eq_iff_index_eq)

lemma inj_on_cell_yx:
  "distinct rs \<Longrightarrow> inj_on (\<lambda>(y, x). (rs ! y, x)) ({0..<length rs} \<times> {0..<w})"
  by (auto simp: inj_on_def nth_eq_iff_index_eq)

lemma weatherAll_fold:
  assumes "detached s (elevation (datasets m)) t"
  shows "weatherAll m t w s =
           fold (\<lambda>c. updCell (case c of (x, y) \<Rightarrow> (elevationData t ! y, x))
                      (case c of (x, y) \<Rightarrow> \<lambda>u. u - calculateCellWeathering s m x y w))
             (List.product [0..<width t] [0..<height t]) s"
    and "deref (weatherAll m t w s) (elevationData (elevation (datasets m)))
           = deref s (elevationData (elevation (datasets m)))"
proof -
  let ?B = "elevationData (elevation (datasets m))"
  have *: "fold (\<lambda>x. fold (weatherCell m t w x) [0..<height t]) [0..<width t] s
           = fold (\<lambda>c. updCell ((\<lambda>(x, y). (elevationData t ! y, x)) c)
                      ((\<lambda>(x, y). \<lambda>u. u - calculateCellWeathering s m x y w) c))
             (List.product [0..<width t] [0..<height t]) s
         \<and> deref (fold (\<lambda>c. updCell ((\<lambda>(x, y). (elevationData t ! y, x)) c)
                      ((\<lambda>(x, y). \<lambda>u. u - calculateCellWeathering s m x y w) c))
             (List.product [0..<width t] [0..<height t]) s) ?B = deref s ?B"
  proof (rule pass_fold)
    fix i j s'
    assume "deref s' ?B = deref s ?B"
    then show "weatherCell m t w i j s' =
        updCell (case (i, j) of (x, y) \<Rightarrow> (elevationData t ! y, x))
          (case (i, j) of (x, y) \<Rightarrow> \<lambda>u. u - calculateCellWeathering s m x y w) s'"
      by (simp add: weatherCell_def subCell_updCell calculateCellWeathering_cong [of s' m s])
  next
    fix i j
    assume "j \<in> set [0..<height t]"
    then show "fst (case (i, j) of (x, y) \<Rightarrow> (elevationData t ! y, x)) \<notin> set ?B"
      using detached_row(3)[OF assms, of j] by simp
  qed
  from * show "weatherAll m t w s =
           fold (\<lambda>c. updCell (case c of (x, y) \<Rightarrow> (elevationData t ! y, x))
                      (case c of (x, y) \<Rightarrow> \<lambda>u. u - calculateCellWeathering s m x y w))
             (List.product [0..<width t] [0..<height t]) s"
    by (simp add: weatherAll_def)
  with * show "deref (weatherAll m t w s) ?B = deref s ?B" by simp
qed

lemma wf_terrain_same_lengths:
  "length s' = length s \<Longrightarrow> (\<And>a. length (s' ! a) = length (s ! a))
   \<Longrightarrow> wf_terrain s' t = wf_terrain s t"
  by (simp add: wf_terrain_def)

lemma detached_same_lengths:
  "length s' = length s \<Longrightarrow> (\<And>a. length (s' ! a) = length (s ! a))
   \<Longrightarrow> detached s' base t = detached s base t"
  by (simp add: detached_def wf_terrain_same_lengths [of s' s])

lemma xy_pass_cell:
  assumes "distinct rs" and "y < length rs" and "x < w"
    and "rs ! y < length s" and "x < length (s ! (rs ! y))"
  shows "fold (\<lambda>c. updCell (case c of (x, y) \<Rightarrow> (rs ! y, x)) (g c))
           (List.product [0..<w] [0..<length rs]) s ! (rs ! y) ! x
         = g (x, y) (s ! (rs ! y) ! x)"
proof (rule fold_updCell_cell [where c = "(x, y)"])
  show "distinct (List.product [0..<w] [0..<length rs])"
    by (simp add: distinct_product)
  show "inj_on (\<lambda>c. case c of (x, y) \<Rightarrow> (rs ! y, x)) (set (List.product [0..<w] [0..<length rs]))"
    using inj_on_cell_xy [OF assms(1), of w] by simp
  show "(x, y) \<in> set (List.product [0..<w] [0..<length rs])"
    using assms by simp
qed (use assms in simp_all)

lemma yx_pass_cell:
  assumes "distinct rs" and "y < length rs" and "x < w"
    and "rs ! y < length s" and "x < length (s ! (rs ! y))"
  shows "fold (\<lambda>c. updCell (case c of (y, x) \<Rightarrow> (rs ! y, x)) (g c))
           (List.product [0..<length rs] [0..<w]) s ! (rs ! y) ! x
         = g (y, x) (s ! (rs ! y) ! x)"
proof (rule fold_updCell_cell [where c = "(y, x)"])
  show "distinct (List.product [0..<length rs] [0..<w])"
    by (simp add: distinct_product)
  show "inj_on (\<lambda>c. case c of (y, x) \<Rightarrow> (rs ! y, x)) (set (List.product [0..<length rs] [0..<w]))"
    using inj_on_cell_yx [OF assms(1), of w] by simp
  show "(y, x) \<in> set (List.product [0..<length rs] [0..<w])"
    using assms by simp
qed (use assms in simp_all)

lemma xy_pass_other_row:
  assumes "a \<notin> set rs"
  shows "fold (\<lambda>c. updCell (case c of (x, y) \<Rightarrow> (rs ! y, x)) (g c))
           (List.product [0..<w] [0..<length rs]) s ! a = s ! a"
proof (rule fold_updCell_other_row)
  show "a \<notin> fst ` (\<lambda>c. case c of (x, y) \<Rightarrow> (rs ! y, x)) ` set (List.product [0..<w] [0..<length rs])"
    using assms by (auto simp: image_iff)
qed

lemma yx_pass_other_row:
  assumes "a \<notin> set rs"
  shows "fold (\<lambda>c. updCell (case c of (y, x) \<Rightarrow> (rs ! y, x)) (g c))
           (List.product [0..<length rs] [0..<w]) s ! a = s ! a"
proof (rule fold_updCell_other_row)
  show "a \<notin> fst ` (\<lambda>c. case c of (y, x) \<Rightarrow> (rs ! y, x)) ` set (List.product [0..<length rs] [0..<w])"
    using assms by (auto simp: image_iff)
qed

lemma detached_facts:
  assumes "detached s base t"
  shows "length (elevationData t) = height t" and "distinct (elevationData t)"
    and "width t = width base" and "height t = height base"
    and "length (elevationData base) = height base"
  using assms by (simp_all add: detached_def wf_terrain_def)

text \<open>The weathering loop.\<close>

lemma weatherAll_cell:
  assumes "detached s (elevation (datasets m)) t" and "y < height t" and "x < width t"
  shows "weatherAll m t w s ! (elevationData t ! y) ! x
           = s ! (elevationData t ! y) ! x - calculateCellWeathering s m x y w"
proof -
  note d = detached_facts [OF assms(1)] and r = detached_row [OF assms(1,2)]
  have "fold (\<lambda>c. updCell (case c of (x, y) \<Rightarrow> (elevationData t ! y, x))
                      (case c of (x, y) \<Rightarrow> \<lambda>u. u - calculateCellWeathering s m x y w))
             (List.product [0..<width t] [0..<length (elevationData t)]) s
          ! (elevationData t ! y) ! x
        = (case (x, y) of (x, y) \<Rightarrow> \<lambda>u. u - calculateCellWeathering s m x y w)
            (s ! (elevationData t ! y) ! x)"
    using d r assms(2,3) by (intro xy_pass_cell) simp_all
  then show ?thesis
    by (simp add: weatherAll_fold(1) [OF assms(1)] d(1))
qed

lemma weatherAll_frame:
  assumes "detached s (elevation (datasets m)) t"
  shows "length (weatherAll m t w s) = length s"
    and "length (weatherAll m t w s ! a) = length (s ! a)"
    and "a \<notin> set (elevationData t) \<Longrightarrow> weatherAll m t w s ! a = s ! a"
proof -
  note d = detached_facts [OF assms(1)]
  show "length (weatherAll m t w s) = length s"
    and "length (weatherAll m t w s ! a) = length (s ! a)"
    by (simp_all add: weatherAll_fold(1) [OF assms(1)])
  assume "a \<notin> set (elevationData t)"
  from xy_pass_other_row [OF this, of _ "width t" s]
  show "weatherAll m t w s ! a = s ! a"
    by (simp add: weatherAll_fold(1) [OF assms(1)] d(1))
qed

text \<open>The erosion pass.\<close>

lemma applyErosion_fold:
  assumes "detached s (elevation (datasets m)) t"
  shows "applyErosion s m t acc years =
           fold (\<lambda>c. updCell (case c of (y, x) \<Rightarrow> (elevationData t ! y, x))
                      (case c of (y, x) \<Rightarrow>
                         \<lambda>u. u - 0.00005 * years * sqrt (acc ! y ! x) * (calculateSlope s m x y / 45)))
             (List.product [0..<height t] [0..<width t]) s"
    and "deref (applyErosion s m t acc years) (elevationData (elevation (datasets m)))
           = deref s (elevationData (elevation (datasets m)))"
proof -
  let ?B = "elevationData (elevation (datasets m))"
  let ?loc = "\<lambda>c. case c of (y, x) \<Rightarrow> (elevationData t ! y, x)"
  let ?g = "\<lambda>c. case c of (y, x) \<Rightarrow>
              \<lambda>u. u - 0.00005 * years * sqrt (acc ! y ! x) * (calculateSlope s m x y / 45)"
  have *: "fold (\<lambda>y. fold (erodeCell m t acc (0.00005 * years) y) [0..<width t]) [0..<height t] s
           = fold (\<lambda>c. updCell (?loc c) (?g c)) (List.product [0..<height t] [0..<width t]) s
         \<and> deref (fold (\<lambda>c. updCell (?loc c) (?g c))
                    (List.product [0..<height t] [0..<width t]) s) ?B = deref s ?B"
  proof (rule pass_fold)
    fix i j s'
    assume "deref s' ?B = deref s ?B"
    then show "erodeCell m t acc (0.00005 * years) i j s' = updCell (?loc (i, j)) (?g (i, j)) s'"
      by (simp add: erodeCell_def subCell_updCell calculateSlope_cong [of s' m s])
  next
    fix i j
    assume "i \<in> set [0..<height t]"
    then show "fst (?loc (i, j)) \<notin> set ?B"
      using detached_row(3)[OF assms, of i] by simp
  qed
  from * show "applyErosion s m t acc years =
      fold (\<lambda>c. updCell (?loc c) (?g c)) (List.product [0..<height t] [0..<width t]) s"
    by (simp add: applyErosion_def)
  with * show "deref (applyErosion s m t acc years) ?B = deref s ?B" by simp
qed

lemma applyErosion_cell:
  assumes "detached s (elevation (datasets m)) t" and "y < height t" and "x < width t"
  shows "applyErosion s m t acc years ! (elevationData t ! y) ! x
           = s ! (elevationData t ! y) ! x
             - 0.00005 * years * sqrt (acc ! y ! x) * (calculateSlope s m x y / 45)"
proof -
  note d = detached_facts [OF assms(1)] and r = detached_row [OF assms(1,2)]
  let ?g = "\<lambda>c. case c of (y, x) \<Rightarrow>
              \<lambda>u. u - 0.00005 * years * sqrt (acc ! y ! x) * (calculateSlope s m x y / 45)"
  have "fold (\<lambda>c. updCell (case c of (y, x) \<Rightarrow> (elevationData t ! y, x)) (?g c))
             (List.product [0..<length (elevationData t)] [0..<width t]) s
          ! (elevationData t ! y) ! x
        = ?g (y, x) (s ! (elevationData t ! y) ! x)"
    using d r assms(2,3) by (intro yx_pass_cell) simp_all
  then show ?thesis
    by (simp add: applyErosion_fold(1) [OF assms(1)] d(1))
qed

lemma applyErosion_frame:
  assumes "detached s (elevation (datasets m)) t"
  shows "length (applyErosion s m t acc years) = length s"
    and "length (applyErosion s m t acc years ! a) = length (s ! a)"
    and "a \<notin> set (elevationData t) \<Longrightarrow> applyErosion s m t acc years ! a = s ! a"
proof -
  note d = detached_facts [OF assms(1)]
  show "length (applyErosion s m t acc years) = length s"
    and "length (applyErosion s m t acc years ! a) = length (s ! a)"
    by (simp_all add: applyErosion_fold(1) [OF assms(1)])
  assume "a \<notin> set (elevationData t)"
  from yx_pass_other_row [OF this, of _ "width t" s]
  show "applyErosion s m t acc years ! a = s ! a"
    by (simp add: applyErosion_fold(1) [OF assms(1)] d(1))
qed

text \<open>The deposition pass.\<close>

lemma applyDeposition_fold:
  assumes "detached s (elevation (datasets m)) t"
  shows "applyDeposition s m t acc years =
           fold (\<lambda>c. updCell (case c of (y, x) \<Rightarrow> (elevationData t ! y, x))
                      (case c of (y, x) \<Rightarrow>
                         \<lambda>u. if calculateSlope s m x y < 10
                              then u + max 0 (0.00002 * years * sqrt (acc ! y ! x)
                                                * (1 - calculateSlope s m x y / 90))
                              else u))
             (List.product [0..<height t] [0..<width t]) s"
    and "deref (applyDeposition s m t acc years) (elevationData (elevation (datasets m)))
           = deref s (elevationData (elevation (datasets m)))"
proof -
  let ?B = "elevationData (elevation (datasets m))"
  let ?loc = "\<lambda>c. case c of (y, x) \<Rightarrow> (elevationData t ! y, x)"
  let ?g = "\<lambda>c. case c of (y, x) \<Rightarrow>
              \<lambda>u. if calculateSlope s m x y < 10
                   then u + max 0 (0.00002 * years * sqrt (acc ! y ! x)
                                     * (1 - calculateSlope s m x y / 90))
                   else u"
  have *: "fold (\<lambda>y. fold (depositCell m t acc (0.00002 * years) y) [0..<width t]) [0..<height t] s
           = fold (\<lambda>c. updCell (?loc c) (?g c)) (List.product [0..<height t] [0..<width t]) s
         \<and> deref (fold (\<lambda>c. updCell (?loc c) (?g c))
                    (List.product [0..<height t] [0..<width t]) s) ?B = deref s ?B"
  proof (rule pass_fold)
    fix i j s'
    assume "deref s' ?B = deref s ?B"
    then show "depositCell m t acc (0.00002 * years) i j s' = updCell (?loc (i, j)) (?g (i, j)) s'"
      by (simp add: depositCell_def addCell_updCell calculateSlope_cong [of s' m s] Let_def)
  next
    fix i j
    assume "i \<in> set [0..<height t]"
    then show "fst (?loc (i, j)) \<notin> set ?B"
      using detached_row(3)[OF assms, of i] by simp
  qed
  from * show "applyDeposition s m t acc years =
      fold (\<lambda>c. updCell (?loc c) (?g c)) (List.product [0..<height t] [0..<width t]) s"
    by (simp add: applyDeposition_def)
  with * show "deref (applyDeposition s m t acc years) ?B = deref s ?B" by simp
qed

lemma applyDeposition_cell:
  assumes "detached s (elevation (datasets m)) t" and "y < height t" and "x < width t"
  shows "applyDeposition s m t acc years ! (elevationData t ! y) ! x
           = (if calculateSlope s m x y < 10
              then s ! (elevationData t ! y) ! x
                   + max 0 (0.00002 * years * sqrt (acc ! y ! x) * (1 - calculateSlope s m x y / 90))
              else s ! (elevationData t ! y) ! x)"
proof -
  note d = detached_facts [OF assms(1)] and r = detached_row [OF assms(1,2)]
  let ?g = "\<lambda>c. case c of (y, x) \<Rightarrow>
              \<lambda>u. if calculateSlope s m x y < 10
                   then u + max 0 (0.00002 * years * sqrt (acc ! y ! x)
                                     * (1 - calculateSlope s m x y / 90))
                   else u"
  have "fold (\<lambda>c. updCell (case c of (y, x) \<Rightarrow> (elevationData t ! y, x)) (?g c))
             (List.product [0..<length (elevationData t)] [0..<width t]) s
          ! (elevationData t ! y) ! x
        = ?g (y, x) (s ! (elevationData t ! y) ! x)"
    using d r assms(2,3) by (intro yx_pass_cell) simp_all
  then show ?thesis
    by (simp add: applyDeposition_fold(1) [OF assms(1)] d(1))
qed

lemma applyDeposition_frame:
  assumes "detached s (elevation (datasets m)) t"
  shows "length (applyDeposition s m t acc years) = length s"
    and "length (applyDeposition s m t acc years ! a) = length (s ! a)"
    and "a \<notin> set (elevationData t) \<Longrightarrow> applyDeposition s m t acc years ! a = s ! a"
proof -
  note d = detached_facts [OF assms(1)]
  show "length (applyDeposition s m t acc years) = length s"
    and "length (applyDeposition s m t acc years ! a) = length (s ! a)"
    by (simp_all add: applyDeposition_fold(1) [OF assms(1)])
  assume "a \<notin> set (elevationData t)"
  from yx_pass_other_row [OF this, of _ "width t" s]
  show "applyDeposition s m t acc years ! a = s ! a"
    by (simp add: applyDeposition_fold(1) [OF assms(1)] d(1))
qed

text \<open>The clone.\<close>

lemma cloneTerrainModel_detached:
  assumes "wf_terrain s base" and "cloneTerrainModel s base = (s0, t)"
  shows "detached s0 base t"
    and "s0 = s @ deref s (elevationData base)"
    and "elevationData t = [length s..<length s + height base]"
    and "deref s0 (elevationData t) = deref s (elevationData base)"
    and "deref s0 (elevationData base) = deref s (elevationData base)"
proof -
  from assms(1) have len: "length (elevationData base) = height base"
    and rows: "\<And>a. a \<in> set (elevationData base) \<Longrightarrow> a < length s \<and> length (s ! a) = width base"
    and c: "0 < cellSize base"
    by (auto simp: wf_terrain_def list_all_iff)
  from assms(2) show s0: "s0 = s @ deref s (elevationData base)"
    and t: "elevationData t = [length s..<length s + height base]"
    by (auto simp: cloneTerrainModel_def Let_def len)
  from assms(2) have wh: "width t = width base" "height t = height base" "cellSize t = cellSize base"
    by (auto simp: cloneTerrainModel_def Let_def)
  show 1: "deref s0 (elevationData t) = deref s (elevationData base)"
    by (rule nth_equalityI) (simp_all add: t s0 len nth_append)
  show 2: "deref s0 (elevationData base) = deref s (elevationData base)"
    using rows by (intro nth_equalityI) (simp_all add: s0 nth_append)
  have wfb: "wf_terrain s0 base"
    using rows len c by (fastforce simp: wf_terrain_def list_all_iff s0 nth_append)
  have wft: "wf_terrain s0 t"
    using rows len c wh
    by (auto simp: wf_terrain_def list_all_iff s0 t nth_append)
  show "detached s0 base t"
    using wfb wft wh rows by (fastforce simp: detached_def list_all_iff t)
qed

subsection \<open>Erosion and projection, cell by cell\<close>

lemma detached_applyErosion:
  assumes "detached s (elevation (datasets m)) t"
  shows "detached (applyErosion s m t acc years) (elevation (datasets m)) t"
  using assms applyErosion_frame(1,2) [OF assms]
  by (simp add: detached_same_lengths [of "applyErosion s m t acc years" s])

lemma detached_weatherAll:
  assumes "detached s (elevation (datasets m)) t"
  shows "detached (weatherAll m t w s) (elevation (datasets m)) t"
  using assms weatherAll_frame(1,2) [OF assms]
  by (simp add: detached_same_lengths [of "weatherAll m t w s" s])

lemma detached_applyDeposition:
  assumes "detached s (elevation (datasets m)) t"
  shows "detached (applyDeposition s m t acc years) (elevation (datasets m)) t"
  using assms applyDeposition_frame(1,2) [OF assms]
  by (simp add: detached_same_lengths [of "applyDeposition s m t acc years" s])

lemma simulateErosion_cell:
  assumes "detached s (elevation (datasets m)) t" and "y < height t" and "x < width t"
  shows "fst (simulateErosion rnd s m t years) ! (elevationData t ! y) ! x
           = s ! (elevationData t ! y) ! x
             - 0.00005 * years * (calculateSlope s m x y / 45)
             + (if calculateSlope s m x y < 10
                then max 0 (0.00002 * years * (1 - calculateSlope s m x y / 90)) else 0)"
proof -
  let ?acc = "replicate (height t) (replicate (width t) (1::real))"
  let ?s1 = "applyErosion s m t ?acc years"
  have acc: "?acc ! y ! x = 1" using assms(2,3) by simp
  have d1: "detached ?s1 (elevation (datasets m)) t"
    by (rule detached_applyErosion [OF assms(1)])
  have slope: "calculateSlope ?s1 m x y = calculateSlope s m x y"
    by (rule calculateSlope_cong) (rule applyErosion_fold(2) [OF assms(1)])
  show ?thesis
    unfolding simulateErosion_store
    by (simp only: applyDeposition_cell [OF d1 assms(2,3)] applyErosion_cell [OF assms] slope acc)
       simp
qed

lemma simulateErosion_frame:
  assumes "detached s (elevation (datasets m)) t"
  shows "length (fst (simulateErosion rnd s m t years)) = length s"
    and "length (fst (simulateErosion rnd s m t years) ! a) = length (s ! a)"
    and "a \<notin> set (elevationData t) \<Longrightarrow> fst (simulateErosion rnd s m t years) ! a = s ! a"
    and "deref (fst (simulateErosion rnd s m t years)) (elevationData (elevation (datasets m)))
           = deref s (elevationData (elevation (datasets m)))"
proof -
  let ?acc = "replicate (height t) (replicate (width t) (1::real))"
  let ?s1 = "applyErosion s m t ?acc years"
  have d1: "detached ?s1 (elevation (datasets m)) t"
    by (rule detached_applyErosion [OF assms(1)])
  show "length (fst (simulateErosion rnd s m t years)) = length s"
    by (simp add: simulateErosion_store applyDeposition_frame(1) [OF d1]
        applyErosion_frame(1) [OF assms])
  show "length (fst (simulateErosion rnd s m t years) ! a) = length (s ! a)"
    by (simp add: simulateErosion_store applyDeposition_frame(2) [OF d1]
        applyErosion_frame(2) [OF assms])
  show "deref (fst (simulateErosion rnd s m t years)) (elevationData (elevation (datasets m)))
           = deref s (elevationData (elevation (datasets m)))"
    by (simp add: simulateErosion_store applyDeposition_fold(2) [OF d1]
        applyErosion_fold(2) [OF assms])
  assume "a \<notin> set (elevationData t)"
  then show "fst (simulateErosion rnd s m t years) ! a = s ! a"
    by (simp add: simulateErosion_store applyDeposition_frame(3) [OF d1]
        applyErosion_frame(3) [OF assms])
qed

text \<open>What \<^verbatim>\<open>projectWeathering\<close> leaves in the store.\<close>

lemma projectWeathering_result:
  assumes wf: "wf_terrain s (elevation (datasets m))"
    and pw: "projectWeathering rnd s m years = (t, s', rnd')"
  shows "elevationData t = [length s..<length s + height (elevation (datasets m))]"
    and "width t = width (elevation (datasets m))"
    and "height t = height (elevation (datasets m))"
    and "cellSize t = cellSize (elevation (datasets m))"
    and "length s' = length s + height (elevation (datasets m))"
    and "\<And>a. a < length s \<Longrightarrow> s' ! a = s ! a"
    and "detached s' (elevation (datasets m)) t"
    and "\<And>x y. y < height (elevation (datasets m)) \<Longrightarrow> x < width (elevation (datasets m)) \<Longrightarrow>
           s' ! (elevationData t ! y) ! x
             = s ! (elevationData (elevation (datasets m)) ! y) ! x
               - calculateCellWeathering s m x y (years * calculateTotalWeatheringRate m)
               - 0.00005 * years * (calculateSlope s m x y / 45)
               + (if calculateSlope s m x y < 10
                  then max 0 (0.00002 * years * (1 - calculateSlope s m x y / 90)) else 0)"
proof -
  let ?base = "elevation (datasets m)"
  let ?w = "years * calculateTotalWeatheringRate m"
  obtain s0 t0 where cl: "cloneTerrainModel s ?base = (s0, t0)"
    by (cases "cloneTerrainModel s ?base")
  note c = cloneTerrainModel_detached [OF wf cl]
  from pw cl have t: "t = t0"
    using projectWeathering_terrain [of rnd s m years] by simp
  let ?s1 = "weatherAll m t ?w s0"
  from pw cl have s': "s' = fst (simulateErosion rnd ?s1 m t years)"
    using projectWeathering_store [of rnd s m years] by (simp add: t)
  have d0: "detached s0 ?base t" using c(1) by (simp add: t)
  have d1: "detached ?s1 ?base t" by (rule detached_weatherAll [OF d0])
  note f = detached_facts [OF d0]
  show et: "elevationData t = [length s..<length s + height ?base]"
    using c(3) by (simp add: t)
  show "width t = width ?base" "height t = height ?base" by (rule f(3), rule f(4))
  show "cellSize t = cellSize ?base"
    using cl by (auto simp: cloneTerrainModel_def Let_def t)
  have l0: "length s0 = length s + height ?base"
    by (simp add: c(2) f(5))
  show "length s' = length s + height ?base"
    by (simp add: s' simulateErosion_frame(1) [OF d1] weatherAll_frame(1) [OF d0] l0)
  show "detached s' ?base t"
    using d1 simulateErosion_frame(1,2) [OF d1, of rnd years]
    by (simp add: s' detached_same_lengths [of "fst (simulateErosion rnd ?s1 m t years)" ?s1])
  have b0: "deref s0 (elevationData ?base) = deref s (elevationData ?base)" by (rule c(5))
  have b1: "deref ?s1 (elevationData ?base) = deref s (elevationData ?base)"
    by (simp add: weatherAll_fold(2) [OF d0] b0)
  {
    fix a assume a: "a < length s"
    then have na: "a \<notin> set (elevationData t)" by (simp add: et)
    have "s' ! a = ?s1 ! a"
      unfolding s' by (rule simulateErosion_frame(3) [OF d1 na])
    also have "\<dots> = s0 ! a" by (rule weatherAll_frame(3) [OF d0 na])
    also have "\<dots> = s ! a" using a by (simp add: c(2) nth_append)
    finally show "s' ! a = s ! a" .
  }
  {
    fix x y assume y: "y < height ?base" and x: "x < width ?base"
    then have yt: "y < height t" and xt: "x < width t" by (simp_all add: f(3,4))
    have "deref s0 (elevationData t) ! y ! x = deref s (elevationData ?base) ! y ! x"
      using c(4) by (simp add: t)
    then have start: "s0 ! (elevationData t ! y) ! x = s ! (elevationData ?base ! y) ! x"
      using y f by simp
    have slope: "calculateSlope ?s1 m x y = calculateSlope s m x y"
      by (rule calculateSlope_cong [OF b1])
    have cw: "calculateCellWeathering s0 m x y ?w = calculateCellWeathering s m x y ?w"
      by (rule calculateCellWeathering_cong [OF b0])
    show "s' ! (elevationData t ! y) ! x
             = s ! (elevationData ?base ! y) ! x
               - calculateCellWeathering s m x y ?w
               - 0.00005 * years * (calculateSlope s m x y / 45)
               + (if calculateSlope s m x y < 10
                  then max 0 (0.00002 * years * (1 - calculateSlope s m x y / 90)) else 0)"
      unfolding s'
      by (simp only: simulateErosion_cell [OF d1 yt xt] weatherAll_cell [OF d0 yt xt]
          slope cw start)
  }
qed

subsection \<open>The original grid\<close>

lemma projectWeathering_prefix:
  assumes "wf_terrain s (elevation (datasets m))"
  shows "take (length s) (fst (snd (projectWeathering rnd s m years))) = s"
    and "length s \<le> length (fst (snd (projectWeathering rnd s m years)))"
    and "wf_terrain (fst (snd (projectWeathering rnd s m years))) (elevation (datasets m))"
proof -
  obtain t s' rnd' where pw: "projectWeathering rnd s m years = (t, s', rnd')"
    by (cases "projectWeathering rnd s m years") auto
  note r = projectWeathering_result [OF assms pw]
  have "take (length s) s' = s"
    using r(5,6) by (intro nth_equalityI) simp_all
  then show "take (length s) (fst (snd (projectWeathering rnd s m years))) = s"
    by (simp add: pw)
  show "length s \<le> length (fst (snd (projectWeathering rnd s m years)))"
    using r(5) by (simp add: pw)
  show "wf_terrain (fst (snd (projectWeathering rnd s m years))) (elevation (datasets m))"
    using r(7) by (simp add: pw detached_def)
qed

lemma deref_prefix:
  assumes "wf_terrain s t" and "take (length s) s' = s"
  shows "deref s' (elevationData t) = deref s (elevationData t)"
proof -
  have "s' ! a = s ! a" if "a \<in> set (elevationData t)" for a
  proof -
    from that assms(1) have "a < length s" by (simp add: wf_terrain_def list_all_iff)
    then have "take (length s) s' ! a = s' ! a" by simp
    with assms(2) show ?thesis by simp
  qed
  then show ?thesis by (simp add: deref_def)
qed

lemma generate_fold_prefix:
  assumes "wf_terrain s1 (elevation (datasets m))"
    and "take (length s) s1 = s" and "length s \<le> length s1"
  shows "take (length s)
           (fst (snd (fold (\<lambda>timeStep (models, s', rnd').
                 case projectWeathering rnd' s' m timeStep of
                   (t, s'', rnd'') \<Rightarrow> (models @ [(timeStep, t)], s'', rnd'')) ts (ms, s1, r)))) = s"
  using assms
proof (induction ts arbitrary: ms s1 r)
  case Nil
  then show ?case by simp
next
  case (Cons a ts)
  obtain t2 s2 r2 where pw: "projectWeathering r s1 m a = (t2, s2, r2)"
    by (cases "projectWeathering r s1 m a") auto
  note p = projectWeathering_prefix [OF Cons.prems(1), of r a]
  from p pw have 1: "take (length s1) s2 = s1" and 2: "length s1 \<le> length s2"
    and 3: "wf_terrain s2 (elevation (datasets m))" by simp_all
  have "take (length s) (take (length s1) s2) = take (length s) s1" by (simp only: 1)
  with Cons.prems(3) have 4: "take (length s) s2 = s"
    by (simp add: min_def Cons.prems(2))
  from Cons.prems(3) 2 have 5: "length s \<le> length s2" by simp
  show ?case
    using Cons.IH [OF 3 4 5, of "ms @ [(a, t2)]" r2] by (simp add: pw)
qed

text \<open>
  C6. After \<^verbatim>\<open>projectWeathering\<close>, and after \<^verbatim>\<open>generateWeatheringModels\<close>, the
  elevation dataset that was loaded is as it was: every array that was in the store
  before the call holds the same numbers, so the rows of the dataset do; the clone has
  the dataset's width, height and cell size and rows of its own, made after all those of
  the store, and every write goes to them.
\<close>

theorem original_elevation_unchanged:
  assumes "wf_terrain s (elevation (datasets m))"
  shows "take (length s) (fst (snd (projectWeathering rnd s m years))) = s
    \<and> deref (fst (snd (projectWeathering rnd s m years))) (elevationData (elevation (datasets m)))
        = deref s (elevationData (elevation (datasets m)))
    \<and> width (fst (projectWeathering rnd s m years)) = width (elevation (datasets m))
    \<and> height (fst (projectWeathering rnd s m years)) = height (elevation (datasets m))
    \<and> cellSize (fst (projectWeathering rnd s m years)) = cellSize (elevation (datasets m))
    \<and> elevationData (fst (projectWeathering rnd s m years))
        = [length s..<length s + height (elevation (datasets m))]
    \<and> take (length s) (fst (snd (generateWeatheringModels rnd s m years))) = s
    \<and> deref (fst (snd (generateWeatheringModels rnd s m years)))
          (elevationData (elevation (datasets m)))
        = deref s (elevationData (elevation (datasets m)))"
proof -
  obtain t s' rnd' where pw: "projectWeathering rnd s m years = (t, s', rnd')"
    by (cases "projectWeathering rnd s m years") auto
  note r = projectWeathering_result [OF assms pw]
  note p = projectWeathering_prefix [OF assms, of rnd years]
  have g: "take (length s) (fst (snd (generateWeatheringModels rnd s m years))) = s"
    unfolding generateWeatheringModels_def Let_def
    by (rule generate_fold_prefix [OF assms]) simp_all
  show ?thesis
    using p(1) deref_prefix [OF assms p(1)] r(1-4) g deref_prefix [OF assms g]
    by (simp add: pw)
qed

theorem original_elevation_unchanged_witness:
  "wf_terrain hillStore (elevation (datasets (demoMap hillTerrain)))
   \<and> take (length hillStore)
        (fst (snd (projectWeathering (sconst 0.5) hillStore (demoMap hillTerrain) 2000)))
       = hillStore
   \<and> deref (fst (snd (generateWeatheringModels (sconst 0.5) hillStore (demoMap hillTerrain) 2000)))
        (elevationData hillTerrain)
       = deref hillStore (elevationData hillTerrain)"
proof -
  have wf: "wf_terrain hillStore (elevation (datasets (demoMap hillTerrain)))"
    by (simp add: wf_hill)
  from original_elevation_unchanged [OF wf, of "sconst 0.5" 2000] wf
  show ?thesis by simp
qed

subsection \<open>Projecting zero years\<close>

lemma calculateCellWeathering_zero [simp]: "calculateCellWeathering s m x y 0 = 0"
  by (simp add: calculateCellWeathering_def Let_def)

lemma projectWeathering_grid:
  assumes wf: "wf_terrain s (elevation (datasets m))"
    and pw: "projectWeathering rnd s m years = (t, s', rnd')"
    and cells: "\<And>x y. y < height (elevation (datasets m)) \<Longrightarrow> x < width (elevation (datasets m))
                 \<Longrightarrow> s' ! (elevationData t ! y) ! x = g ! y ! x"
    and g: "length g = height (elevation (datasets m))"
      "\<And>y. y < height (elevation (datasets m)) \<Longrightarrow> length (g ! y) = width (elevation (datasets m))"
  shows "deref s' (elevationData t) = g"
proof -
  note r = projectWeathering_result [OF wf pw]
  note f = detached_facts [OF r(7)]
  show ?thesis
  proof (rule nth_equalityI)
    show "length (deref s' (elevationData t)) = length g" by (simp add: f g)
  next
    fix y assume "y < length (deref s' (elevationData t))"
    then have y: "y < height t" by (simp add: f)
    note row = detached_row [OF r(7) y]
    have "s' ! (elevationData t ! y) = g ! y"
      using y row(2) cells g by (intro nth_equalityI) (simp_all add: f(3,4))
    with y show "deref s' (elevationData t) ! y = g ! y" by (simp add: f)
  qed
qed

text \<open>
  C4. Projecting 0 years gives a grid with the numbers of the base grid: the intensity
  is 0, so no cell is weathered, and the erosion and deposition amounts are 0, so the two
  passes change no cell.
\<close>

theorem project_zero_years_unchanged:
  assumes "wf_terrain s (elevation (datasets m))"
  shows "deref (fst (snd (projectWeathering rnd s m 0)))
           (elevationData (fst (projectWeathering rnd s m 0)))
         = deref s (elevationData (elevation (datasets m)))"
proof -
  let ?base = "elevation (datasets m)"
  obtain t s' rnd' where pw: "projectWeathering rnd s m 0 = (t, s', rnd')"
    by (cases "projectWeathering rnd s m 0") auto
  from assms have len: "length (elevationData ?base) = height ?base"
    and rows: "\<And>a. a \<in> set (elevationData ?base) \<Longrightarrow> length (s ! a) = width ?base"
    by (auto simp: wf_terrain_def list_all_iff)
  have "deref s' (elevationData t) = deref s (elevationData ?base)"
  proof (rule projectWeathering_grid [OF assms pw])
    fix x y assume "y < height ?base" and "x < width ?base"
    then show "s' ! (elevationData t ! y) ! x = deref s (elevationData ?base) ! y ! x"
      by (simp add: projectWeathering_result(8) [OF assms pw] len)
  next
    show "length (deref s (elevationData ?base)) = height ?base" by (simp add: len)
  next
    fix y assume "y < height ?base"
    then show "length (deref s (elevationData ?base) ! y) = width ?base"
      using rows len by simp
  qed
  then show ?thesis by (simp add: pw)
qed

theorem project_zero_years_unchanged_witness:
  "wf_terrain hillStore (elevation (datasets (demoMap hillTerrain)))
   \<and> deref (fst (snd (projectWeathering (sconst 0.5) hillStore (demoMap hillTerrain) 0)))
        (elevationData (fst (projectWeathering (sconst 0.5) hillStore (demoMap hillTerrain) 0)))
       = [[0, 0, 0], [0, 1250, 2500], [0, 0, 0]]"
proof -
  have wf: "wf_terrain hillStore (elevation (datasets (demoMap hillTerrain)))"
    by (simp add: wf_hill)
  have "deref hillStore (elevationData hillTerrain) = [[0, 0, 0], [0, 1250, 2500], [0, 0, 0]]"
    by (simp add: deref_def hillStore_def hillTerrain_def)
  with project_zero_years_unchanged [OF wf, of "sconst 0.5"] wf
  show ?thesis by simp
qed

subsection \<open>Flat grids\<close>

lemma rate_demoMap: "calculateTotalWeatheringRate (demoMap t) = 1 / 2000"
  by (simp add: demoMap_def calculateTotalWeatheringRate_def)

lemma flat_cells:
  assumes wf: "wf_terrain s (elevation (datasets m))"
    and flat: "list_all (\<lambda>a. s ! a = replicate (width (elevation (datasets m))) e)
                 (elevationData (elevation (datasets m)))"
    and y: "y < height (elevation (datasets m))" and x: "x < width (elevation (datasets m))"
  shows "deref s (elevationData (elevation (datasets m))) ! y ! x = e"
    and "calculateSlope s m x y = 0"
    and "calculateAspect s m x y = 0"
proof -
  let ?base = "elevation (datasets m)"
  let ?z = "deref s (elevationData ?base)"
  from wf have len: "length (elevationData ?base) = height ?base"
    by (simp add: wf_terrain_def)
  have cell: "?z ! y' ! x' = e" if "y' < height ?base" "x' < width ?base" for x' y'
  proof -
    from that len have "elevationData ?base ! y' \<in> set (elevationData ?base)" by simp
    with flat have "s ! (elevationData ?base ! y') = replicate (width ?base) e"
      by (simp add: list_all_iff)
    with that len show ?thesis by simp
  qed
  from cell [OF y x] show "?z ! y ! x = e" .
  have lz: "length ?z = height ?base" by (simp add: len)
  have "?z ! 0 = replicate (width ?base) e"
  proof -
    from y len have "elevationData ?base ! 0 \<in> set (elevationData ?base)" by simp
    with flat have "s ! (elevationData ?base ! 0) = replicate (width ?base) e"
      by (simp add: list_all_iff)
    with y len show ?thesis by simp
  qed
  then have l0: "length (?z ! 0) = width ?base" by simp
  show "calculateSlope s m x y = 0"
  proof (cases "x = 0 \<or> y = 0 \<or> Suc x = length (?z ! 0) \<or> Suc y = length ?z")
    case True
    then show ?thesis by (simp add: calculateSlope_def Let_def)
  next
    case False
    with x y lz l0 have "x + 1 < width ?base" "x - 1 < width ?base"
      "y + 1 < height ?base" "y - 1 < height ?base" by simp_all
    with x y have "?z ! y ! (x + 1) = e" "?z ! y ! (x - 1) = e"
      "?z ! (y + 1) ! x = e" "?z ! (y - 1) ! x = e"
      by (simp_all only: cell)
    with False show ?thesis by (simp add: calculateSlope_def Let_def)
  qed
  show "calculateAspect s m x y = 0"
  proof (cases "x = 0 \<or> y = 0 \<or> Suc x = length (?z ! 0) \<or> Suc y = length ?z")
    case True
    then show ?thesis by (simp add: calculateAspect_def Let_def)
  next
    case False
    with x y lz l0 have "x + 1 < width ?base" "x - 1 < width ?base"
      "y + 1 < height ?base" "y - 1 < height ?base" by simp_all
    with x y have "?z ! y ! (x + 1) = e" "?z ! y ! (x - 1) = e"
      "?z ! (y + 1) ! x = e" "?z ! (y - 1) ! x = e"
      by (simp_all only: cell)
    with False show ?thesis by (simp add: calculateAspect_def Let_def atan2_def)
  qed
qed

lemma flat_projection:
  assumes wf: "wf_terrain s (elevation (datasets m))"
    and flat: "list_all (\<lambda>a. s ! a = replicate (width (elevation (datasets m))) e)
                 (elevationData (elevation (datasets m)))"
    and y: "y < height (elevation (datasets m))" and x: "x < width (elevation (datasets m))"
  shows "deref (fst (snd (projectWeathering rnd s m years)))
           (elevationData (fst (projectWeathering rnd s m years))) ! y ! x
         = e - (years * calculateTotalWeatheringRate m * calculateElevationFactor e
                - max 0 (0.00002 * years))"
proof -
  obtain t s' rnd' where pw: "projectWeathering rnd s m years = (t, s', rnd')"
    by (cases "projectWeathering rnd s m years") auto
  note r = projectWeathering_result [OF wf pw]
  note f = flat_cells [OF wf flat y x]
  from wf have len: "length (elevationData (elevation (datasets m))) = height (elevation (datasets m))"
    by (simp add: wf_terrain_def)
  have cw: "calculateCellWeathering s m x y (years * calculateTotalWeatheringRate m)
      = years * calculateTotalWeatheringRate m * calculateElevationFactor e"
    by (simp add: calculateCellWeathering_def Let_def f)
  have e: "s ! (elevationData (elevation (datasets m)) ! y) ! x = e"
    using f(1) y len by simp
  have "s' ! (elevationData t ! y) ! x
      = e - (years * calculateTotalWeatheringRate m * calculateElevationFactor e
             - max 0 (0.00002 * years))"
    by (simp add: r(8) [OF y x] cw e f(2))
  moreover have "y < length (elevationData t)"
    using y detached_facts(1,4) [OF r(7)] by simp
  ultimately show ?thesis by (simp add: pw)
qed

text \<open>
  C3, as amended. On a flat grid the slope is 0 at every cell, and
  \<^verbatim>\<open>projectWeathering\<close> lowers every cell by the same amount: the intensity times the
  elevation factor of the grid's elevation, less the deposit \<open>max 0 (0.00002 * years)\<close>
  that the deposition pass adds to every cell of slope below 10.
\<close>

theorem flat_grid_uniform_loss:
  assumes "wf_terrain s (elevation (datasets m))"
    and "list_all (\<lambda>a. s ! a = replicate (width (elevation (datasets m))) e)
           (elevationData (elevation (datasets m)))"
    and "y < height (elevation (datasets m))" and "x < width (elevation (datasets m))"
  shows "calculateSlope s m x y = 0
    \<and> deref s (elevationData (elevation (datasets m))) ! y ! x
        - deref (fst (snd (projectWeathering rnd s m years)))
            (elevationData (fst (projectWeathering rnd s m years))) ! y ! x
      = years * calculateTotalWeatheringRate m * calculateElevationFactor e
        - max 0 (0.00002 * years)"
  using flat_cells(1,2) [OF assms] flat_projection [OF assms, of rnd years] by simp

theorem flat_grid_uniform_loss_witness:
  "wf_terrain flatStore (elevation (datasets (demoMap flatTerrain)))
   \<and> calculateSlope flatStore (demoMap flatTerrain) 1 1 = 0
   \<and> deref flatStore (elevationData flatTerrain) ! 1 ! 1
        - deref (fst (snd (projectWeathering (sconst 0.5) flatStore (demoMap flatTerrain) 2000)))
            (elevationData (fst (projectWeathering (sconst 0.5) flatStore (demoMap flatTerrain) 2000)))
            ! 1 ! 1
      = 24 / 25"
proof -
  have wf: "wf_terrain flatStore (elevation (datasets (demoMap flatTerrain)))"
    by (simp add: wf_flat)
  have flat: "list_all (\<lambda>a. flatStore ! a = replicate (width (elevation (datasets (demoMap flatTerrain)))) 100)
           (elevationData (elevation (datasets (demoMap flatTerrain))))"
    by (simp add: flatStore_def flatTerrain_def numeral_eq_Suc)
  have y: "1 < height (elevation (datasets (demoMap flatTerrain)))"
    and x: "1 < width (elevation (datasets (demoMap flatTerrain)))"
    by (simp_all add: flatTerrain_def)
  from flat_grid_uniform_loss [OF wf flat y x, of "sconst 0.5" 2000] wf
  show ?thesis by (simp add: rate_demoMap calculateElevationFactor_def)
qed

text \<open>
  C3, as stated, fails: on the flat 3 by 3 grid at elevation 100, after 2000 years at the
  rate 1/2000, the intensity is 1 but the cell in the middle is lowered by 0.96 only.
\<close>

theorem flat_grid_loss_counterexample:
  "2000 * calculateTotalWeatheringRate (demoMap flatTerrain) = 1
   \<and> deref flatStore (elevationData flatTerrain) ! 1 ! 1
        - deref (fst (snd (projectWeathering (sconst 0.5) flatStore (demoMap flatTerrain) 2000)))
            (elevationData (fst (projectWeathering (sconst 0.5) flatStore (demoMap flatTerrain) 2000)))
            ! 1 ! 1
      \<noteq> 2000 * calculateTotalWeatheringRate (demoMap flatTerrain)"
proof -
  have wf: "wf_terrain flatStore (elevation (datasets (demoMap flatTerrain)))"
    by (simp add: wf_flat)
  have flat: "list_all (\<lambda>a. flatStore ! a = replicate (width (elevation (datasets (demoMap flatTerrain)))) 100)
           (elevationData (elevation (datasets (demoMap flatTerrain))))"
    by (simp add: flatStore_def flatTerrain_def numeral_eq_Suc)
  have y: "1 < height (elevation (datasets (demoMap flatTerrain)))"
    and x: "1 < width (elevation (datasets (demoMap flatTerrain)))"
    by (simp_all add: flatTerrain_def)
  have "deref flatStore (elevationData flatTerrain) ! 1 ! 1 = 100"
    by (simp add: deref_def flatStore_def flatTerrain_def)
  with flat_projection [OF wf flat y x, of "sconst 0.5" 2000]
  show ?thesis by (simp add: rate_demoMap calculateElevationFactor_def)
qed

subsection \<open>Erosion lowers, deposition raises\<close>

lemma store_le_iff:
  "store_le s' s \<longleftrightarrow>
     length s' = length s \<and>
     (\<forall>a < length s. length (s' ! a) = length (s ! a) \<and> (\<forall>k < length (s ! a). s' ! a ! k \<le> s ! a ! k))"
  by (auto simp: store_le_def list_all_iff)

lemma store_le_refl [simp]: "store_le s s"
  by (simp add: store_le_iff)

lemma store_le_trans:
  assumes "store_le s1 s2" and "store_le s2 s3"
  shows "store_le s1 s3"
  unfolding store_le_iff
proof (intro conjI allI impI)
  show "length s1 = length s3" using assms by (simp add: store_le_iff)
next
  fix a assume a: "a < length s3"
  with assms have l: "length (s2 ! a) = length (s3 ! a)" "a < length s2"
    by (simp_all add: store_le_iff)
  with assms have l': "length (s1 ! a) = length (s2 ! a)" by (simp add: store_le_iff)
  with l show "length (s1 ! a) = length (s3 ! a)" by simp
  fix k assume k: "k < length (s3 ! a)"
  with assms(2) a have "s2 ! a ! k \<le> s3 ! a ! k" by (simp add: store_le_iff)
  moreover from assms(1) l k have "s1 ! a ! k \<le> s2 ! a ! k" by (simp add: store_le_iff)
  ultimately show "s1 ! a ! k \<le> s3 ! a ! k" by simp
qed

lemma store_le_updCell_down: "(\<And>u. f u \<le> u) \<Longrightarrow> store_le (updCell l f s) s"
  by (simp add: store_le_iff nth_updCell)

lemma store_le_updCell_up: "(\<And>u. u \<le> f u) \<Longrightarrow> store_le s (updCell l f s)"
  by (simp add: store_le_iff nth_updCell)

lemma fold_store_le_down:
  assumes "\<And>c s. c \<in> set cs \<Longrightarrow> store_le (F c s) s"
  shows "store_le (fold F cs s) s"
  using assms
proof (induction cs arbitrary: s)
  case Nil
  then show ?case by simp
next
  case (Cons c cs)
  have "store_le (fold F cs (F c s)) (F c s)" using Cons.prems by (intro Cons.IH) simp
  moreover have "store_le (F c s) s" using Cons.prems by simp
  ultimately show ?case by (simp add: store_le_trans [of _ "F c s"])
qed

lemma fold_store_le_up:
  assumes "\<And>c s. c \<in> set cs \<Longrightarrow> store_le s (F c s)"
  shows "store_le s (fold F cs s)"
  using assms
proof (induction cs arbitrary: s)
  case Nil
  then show ?case by simp
next
  case (Cons c cs)
  have "store_le (F c s) (fold F cs (F c s))" using Cons.prems by (intro Cons.IH) simp
  moreover have "store_le s (F c s)" using Cons.prems by simp
  ultimately show ?case by (simp add: store_le_trans [of _ "F c s"])
qed

lemma calculateSlope_nonneg: "0 \<le> calculateSlope s m x y"
  by (simp add: calculateSlope_def Let_def zero_le_mult_iff zero_le_arctan_iff)

lemma applyErosion_store_le:
  assumes "0 \<le> years"
    and "\<And>y x. y < height t \<Longrightarrow> x < width t \<Longrightarrow> 0 \<le> acc ! y ! x"
  shows "store_le (applyErosion s m t acc years) s"
  unfolding applyErosion_def Let_def
proof (rule fold_store_le_down)
  fix y s1 assume "y \<in> set [0..<height t]"
  then have y: "y < height t" by simp
  show "store_le (fold (erodeCell m t acc (0.00005 * years) y) [0..<width t] s1) s1"
  proof (rule fold_store_le_down)
    fix x s2 assume "x \<in> set [0..<width t]"
    then have "x < width t" by simp
    with y assms have "0 \<le> 0.00005 * years * sqrt (acc ! y ! x) * (calculateSlope s2 m x y / 45)"
      by (simp add: calculateSlope_nonneg)
    then show "store_le (erodeCell m t acc (0.00005 * years) y x s2) s2"
      unfolding erodeCell_def Let_def subCell_updCell
      by (intro store_le_updCell_down) simp
  qed
qed

lemma applyDeposition_store_le: "store_le s (applyDeposition s m t acc years)"
  unfolding applyDeposition_def Let_def
proof (rule fold_store_le_up)
  fix y s1
  show "store_le s1 (fold (depositCell m t acc (0.00002 * years) y) [0..<width t] s1)"
  proof (rule fold_store_le_up)
    fix x s2
    have "store_le s2 (updCell (elevationData t ! y, x)
        (\<lambda>u. u + max 0 (0.00002 * years * sqrt (acc ! y ! x) * (1 - calculateSlope s2 m x y / 90))) s2)"
      by (rule store_le_updCell_up) simp
    then show "store_le s2 (depositCell m t acc (0.00002 * years) y x s2)"
      by (simp add: depositCell_def Let_def addCell_updCell)
  qed
qed

lemma store_le_cell:
  assumes "store_le s' s" and "wf_terrain s t \<or> wf_terrain s' t"
    and "y < height t" and "x < width t"
  shows "deref s' (elevationData t) ! y ! x \<le> deref s (elevationData t) ! y ! x"
proof -
  from assms(1) have ls: "length s' = length s"
    and lr: "\<And>a. a < length s \<Longrightarrow> length (s' ! a) = length (s ! a)"
    by (simp_all add: store_le_iff)
  have "wf_terrain s t"
    using assms(2) ls lr by (auto simp: wf_terrain_def list_all_iff)
  note assms = assms(1) this assms(3,4)
  from assms(2,3) have len: "y < length (elevationData t)"
    and "elevationData t ! y \<in> set (elevationData t)"
    by (simp_all add: wf_terrain_def)
  with assms(2) have "elevationData t ! y < length s"
    and "length (s ! (elevationData t ! y)) = width t"
    by (simp_all add: wf_terrain_def list_all_iff)
  with assms(1,4) have "s' ! (elevationData t ! y) ! x \<le> s ! (elevationData t ! y) ! x"
    by (simp add: store_le_iff)
  with len show ?thesis by simp
qed

text \<open>
  C5. For non-negative years the erosion pass raises no cell: every cell of the terrain
  is, after \<^verbatim>\<open>applyErosion\<close>, at most what it was. The deposition pass lowers no cell:
  what it adds is \<open>max 0\<close> of the amount, and only where the slope is below 10. The flow
  accumulation is any array without a negative number (the one \<^verbatim>\<open>simulateErosion\<close>
  passes holds 1 everywhere), and the terrain need not be a clone.
\<close>

theorem erosion_lowers_deposition_raises:
  assumes "wf_terrain s t" and "0 \<le> years"
    and "list_all (\<lambda>y. list_all (\<lambda>x. 0 \<le> acc ! y ! x) [0..<width t]) [0..<height t]"
    and "y < height t" and "x < width t"
  shows "deref (applyErosion s m t acc years) (elevationData t) ! y ! x
           \<le> deref s (elevationData t) ! y ! x
       \<and> deref s (elevationData t) ! y ! x
           \<le> deref (applyDeposition s m t acc years) (elevationData t) ! y ! x
       \<and> depositCell m t acc (0.00002 * years) y x s
           = (if calculateSlope s m x y < 10
              then addCell s t x y
                     (max 0 (0.00002 * years * sqrt (acc ! y ! x) * (1 - calculateSlope s m x y / 90)))
              else s)"
proof -
  from assms(3) have acc: "\<And>y x. y < height t \<Longrightarrow> x < width t \<Longrightarrow> 0 \<le> acc ! y ! x"
    by (simp add: list_all_iff)
  have 1: "store_le (applyErosion s m t acc years) s"
    by (rule applyErosion_store_le [OF assms(2) acc])
  have 2: "store_le s (applyDeposition s m t acc years)"
    by (rule applyDeposition_store_le)
  from assms(1) have wf1: "wf_terrain s t \<or> wf_terrain (applyErosion s m t acc years) t"
    and wf2: "wf_terrain (applyDeposition s m t acc years) t \<or> wf_terrain s t"
    by simp_all
  show ?thesis
    using store_le_cell [OF 1 wf1 assms(4,5)] store_le_cell [OF 2 wf2 assms(4,5)]
    by (simp add: depositCell_def Let_def)
qed

theorem erosion_lowers_deposition_raises_witness:
  "wf_terrain hillStore hillTerrain
   \<and> deref (applyErosion hillStore (demoMap hillTerrain) hillTerrain
              (calculateFlowAccumulation [] hillTerrain) 2000) (elevationData hillTerrain) ! 1 ! 1
       \<le> 1250
   \<and> 1250 \<le> deref (applyDeposition hillStore (demoMap hillTerrain) hillTerrain
                     (calculateFlowAccumulation [] hillTerrain) 2000) (elevationData hillTerrain) ! 1 ! 1"
proof -
  have acc: "list_all (\<lambda>y. list_all (\<lambda>x. 0 \<le> calculateFlowAccumulation [] hillTerrain ! y ! x)
                [0..<width hillTerrain]) [0..<height hillTerrain]"
    by (simp add: calculateFlowAccumulation_const hillTerrain_def list_all_iff)
  have yx: "1 < height hillTerrain" "1 < width hillTerrain"
    by (simp_all add: hillTerrain_def)
  have "deref hillStore (elevationData hillTerrain) ! 1 ! 1 = 1250"
    by (simp add: deref_def hillStore_def hillTerrain_def)
  with erosion_lowers_deposition_raises [OF wf_hill _ acc yx, of 2000 "demoMap hillTerrain"] wf_hill
  show ?thesis by simp
qed

subsection \<open>The order of the cells\<close>

lemma fold_updCell_perm:
  assumes "distinct cs" and "distinct cs'" and "set cs = set cs'" and "inj_on loc (set cs)"
  shows "fold (\<lambda>c. updCell (loc c) (g c)) cs s = fold (\<lambda>c. updCell (loc c) (g c)) cs' s"
proof (rule nth_equalityI)
  show "length (fold (\<lambda>c. updCell (loc c) (g c)) cs s)
      = length (fold (\<lambda>c. updCell (loc c) (g c)) cs' s)" by simp
next
  fix a assume "a < length (fold (\<lambda>c. updCell (loc c) (g c)) cs s)"
  then have a: "a < length s" by simp
  show "fold (\<lambda>c. updCell (loc c) (g c)) cs s ! a = fold (\<lambda>c. updCell (loc c) (g c)) cs' s ! a"
  proof (rule nth_equalityI)
    show "length (fold (\<lambda>c. updCell (loc c) (g c)) cs s ! a)
        = length (fold (\<lambda>c. updCell (loc c) (g c)) cs' s ! a)" by simp
  next
    fix k assume "k < length (fold (\<lambda>c. updCell (loc c) (g c)) cs s ! a)"
    then have k: "k < length (s ! a)" by simp
    show "fold (\<lambda>c. updCell (loc c) (g c)) cs s ! a ! k
        = fold (\<lambda>c. updCell (loc c) (g c)) cs' s ! a ! k"
    proof (cases "(a, k) \<in> loc ` set cs")
      case True
      then obtain c where c: "c \<in> set cs" "loc c = (a, k)" by auto
      have "fold (\<lambda>c. updCell (loc c) (g c)) cs s ! a ! k = g c (s ! a ! k)"
        by (rule fold_updCell_cell [OF assms(1,4) c a k])
      moreover have "fold (\<lambda>c. updCell (loc c) (g c)) cs' s ! a ! k = g c (s ! a ! k)"
        using assms(3,4) c by (intro fold_updCell_cell [OF assms(2)]) (simp_all add: a k)
      ultimately show ?thesis by simp
    next
      case False
      have "fold (\<lambda>c. updCell (loc c) (g c)) cs s ! a ! k = s ! a ! k"
        by (rule fold_updCell_other [OF a k False])
      moreover have "fold (\<lambda>c. updCell (loc c) (g c)) cs' s ! a ! k = s ! a ! k"
        using False assms(3) by (intro fold_updCell_other [OF a k]) simp
      ultimately show ?thesis by simp
    qed
  qed
qed

lemma cells_fold:
  assumes F: "\<And>c s'. c \<in> set cs \<Longrightarrow> deref s' B = deref s B
                \<Longrightarrow> F c s' = updCell (loc c) (g c) s'"
    and B: "\<And>c. c \<in> set cs \<Longrightarrow> fst (loc c) \<notin> set B"
  shows "fold F cs s = fold (\<lambda>c. updCell (loc c) (g c)) cs s"
proof -
  have "fold F cs s = fold (\<lambda>c. updCell (loc c) (g c)) cs s
        \<and> deref (fold (\<lambda>c. updCell (loc c) (g c)) cs s) B = deref s B"
  proof (rule fold_cong_inv [where Inv = "\<lambda>s'. deref s' B = deref s B"])
    show "deref s B = deref s B" ..
  next
    fix c s'
    assume "c \<in> set cs" and "deref s' B = deref s B"
    then show "F c s' = updCell (loc c) (g c) s'" by (rule F)
  next
    fix c s'
    assume c: "c \<in> set cs" and inv: "deref s' B = deref s B"
    obtain a k where l: "loc c = (a, k)" by (cases "loc c")
    with B [OF c] have "a \<notin> set B" by simp
    with inv l show "deref (updCell (loc c) (g c) s') B = deref s B"
      by (simp add: deref_updCell)
  qed
  then show ?thesis ..
qed

lemma weather_any_order:
  assumes d: "detached s (elevation (datasets m)) t"
    and cs: "distinct cs" "set cs = {0..<width t} \<times> {0..<height t}"
  shows "fold (\<lambda>(x, y). weatherCell m t w x y) cs s = weatherAll m t w s"
proof -
  let ?B = "elevationData (elevation (datasets m))"
  let ?loc = "\<lambda>c. case c of (x, y) \<Rightarrow> (elevationData t ! y, x)"
  let ?g = "\<lambda>c. case c of (x, y) \<Rightarrow> \<lambda>u. u - calculateCellWeathering s m x y w"
  note f = detached_facts [OF d]
  have "fold (\<lambda>(x, y). weatherCell m t w x y) cs s = fold (\<lambda>c. updCell (?loc c) (?g c)) cs s"
  proof (rule cells_fold [where B = ?B])
    fix c s' assume "deref s' ?B = deref s ?B"
    then show "(case c of (x, y) \<Rightarrow> weatherCell m t w x y) s' = updCell (?loc c) (?g c) s'"
      by (cases c)
        (simp add: weatherCell_def subCell_updCell calculateCellWeathering_cong [of s' m s])
  next
    fix c :: "nat \<times> nat"
    obtain x y where c: "c = (x, y)" by (cases c)
    assume "c \<in> set cs"
    with cs(2) c have "y < height t" by simp
    from detached_row(3) [OF d this] show "fst (?loc c) \<notin> set ?B" by (simp add: c)
  qed
  also have "\<dots> = fold (\<lambda>c. updCell (?loc c) (?g c))
                     (List.product [0..<width t] [0..<height t]) s"
  proof (rule fold_updCell_perm [OF cs(1)])
    show "distinct (List.product [0..<width t] [0..<height t])" by (simp add: distinct_product)
    show "set cs = set (List.product [0..<width t] [0..<height t])" by (simp add: cs(2))
    show "inj_on ?loc (set cs)"
      using inj_on_cell_xy [OF f(2), of "width t"] by (simp add: cs(2) f(1))
  qed
  also have "\<dots> = weatherAll m t w s" by (simp add: weatherAll_fold(1) [OF d])
  finally show ?thesis .
qed

text \<open>
  C10. In the loop of \<^verbatim>\<open>projectWeathering\<close> the loss of a cell is computed from the
  base grid alone: \<^verbatim>\<open>calculateCellWeathering\<close> gives the same number in any store
  that holds the same base rows, whatever the clone holds. So the cells can be visited in
  any order: the loop run over any list that names every cell once leaves the same store
  as the loop of the code, each cell of the clone is the base cell less its loss, and
  \<^verbatim>\<open>projectWeathering\<close> returns the same store.
\<close>

theorem weathering_order_independent:
  assumes "wf_terrain s (elevation (datasets m))"
    and "distinct cs"
    and "set cs = {0..<width (elevation (datasets m))} \<times> {0..<height (elevation (datasets m))}"
  shows "let s0 = fst (cloneTerrainModel s (elevation (datasets m)));
             t = snd (cloneTerrainModel s (elevation (datasets m)));
             w = years * calculateTotalWeatheringRate m
         in fold (\<lambda>(x, y). weatherCell m t w x y) cs s0 = weatherAll m t w s0
          \<and> fst (snd (projectWeathering rnd s m years))
              = fst (simulateErosion rnd (fold (\<lambda>(x, y). weatherCell m t w x y) cs s0) m t years)
          \<and> (\<forall>(x, y) \<in> set cs.
                weatherAll m t w s0 ! (elevationData t ! y) ! x
                  = s ! (elevationData (elevation (datasets m)) ! y) ! x
                    - calculateCellWeathering s m x y w)
          \<and> (\<forall>s' x y. deref s' (elevationData (elevation (datasets m)))
                         = deref s (elevationData (elevation (datasets m)))
                \<longrightarrow> calculateCellWeathering s' m x y w = calculateCellWeathering s m x y w)"
proof -
  let ?base = "elevation (datasets m)"
  let ?w = "years * calculateTotalWeatheringRate m"
  obtain s0 t where cl: "cloneTerrainModel s ?base = (s0, t)"
    by (cases "cloneTerrainModel s ?base")
  note c = cloneTerrainModel_detached [OF assms(1) cl]
  note f = detached_facts [OF c(1)]
  have 1: "fold (\<lambda>(x, y). weatherCell m t ?w x y) cs s0 = weatherAll m t ?w s0"
    using assms(2,3) by (intro weather_any_order [OF c(1)]) (simp_all add: f)
  have 2: "fst (snd (projectWeathering rnd s m years))
      = fst (simulateErosion rnd (weatherAll m t ?w s0) m t years)"
    by (simp add: projectWeathering_store cl)
  have 3: "weatherAll m t ?w s0 ! (elevationData t ! y) ! x
      = s ! (elevationData ?base ! y) ! x - calculateCellWeathering s m x y ?w"
    if "(x, y) \<in> set cs" for x y
  proof -
    from that assms(3) have y: "y < height t" and x: "x < width t" by (simp_all add: f)
    have "deref s0 (elevationData t) ! y ! x = deref s (elevationData ?base) ! y ! x"
      by (simp only: c(4))
    with y f have "s0 ! (elevationData t ! y) ! x = s ! (elevationData ?base ! y) ! x" by simp
    moreover have "calculateCellWeathering s0 m x y ?w = calculateCellWeathering s m x y ?w"
      by (rule calculateCellWeathering_cong [OF c(5)])
    ultimately show ?thesis by (simp add: weatherAll_cell [OF c(1) y x])
  qed
  have 4: "calculateCellWeathering s' m x y ?w = calculateCellWeathering s m x y ?w"
    if "deref s' (elevationData ?base) = deref s (elevationData ?base)" for s' x y
    using that by (rule calculateCellWeathering_cong)
  show ?thesis
    unfolding Let_def cl fst_conv snd_conv
  proof (intro conjI)
    show "fold (\<lambda>(x, y). weatherCell m t ?w x y) cs s0 = weatherAll m t ?w s0" by (rule 1)
    show "fst (snd (projectWeathering rnd s m years))
      = fst (simulateErosion rnd (fold (\<lambda>(x, y). weatherCell m t ?w x y) cs s0) m t years)"
      by (simp only: 1 2)
    show "\<forall>(x, y) \<in> set cs.
            weatherAll m t ?w s0 ! (elevationData t ! y) ! x
              = s ! (elevationData ?base ! y) ! x - calculateCellWeathering s m x y ?w"
      by clarify (rule 3)
    show "\<forall>s' x y. deref s' (elevationData ?base) = deref s (elevationData ?base)
            \<longrightarrow> calculateCellWeathering s' m x y ?w = calculateCellWeathering s m x y ?w"
      by (intro allI impI) (rule 4)
  qed
qed

theorem weathering_order_independent_witness:
  "wf_terrain hillStore (elevation (datasets (demoMap hillTerrain)))
   \<and> fold (\<lambda>(x, y). weatherCell (demoMap hillTerrain)
                (snd (cloneTerrainModel hillStore (elevation (datasets (demoMap hillTerrain)))))
                (2000 * calculateTotalWeatheringRate (demoMap hillTerrain)) x y)
         (rev (List.product [0..<width (elevation (datasets (demoMap hillTerrain)))]
                 [0..<height (elevation (datasets (demoMap hillTerrain)))]))
         (fst (cloneTerrainModel hillStore (elevation (datasets (demoMap hillTerrain)))))
       = weatherAll (demoMap hillTerrain)
           (snd (cloneTerrainModel hillStore (elevation (datasets (demoMap hillTerrain)))))
           (2000 * calculateTotalWeatheringRate (demoMap hillTerrain))
           (fst (cloneTerrainModel hillStore (elevation (datasets (demoMap hillTerrain)))))"
proof -
  let ?t = "elevation (datasets (demoMap hillTerrain))"
  let ?cs = "rev (List.product [0..<width ?t] [0..<height ?t])"
  have wf: "wf_terrain hillStore ?t"
    by (simp add: wf_hill)
  have d: "distinct ?cs" by (simp add: distinct_product)
  have st: "set ?cs = {0..<width ?t} \<times> {0..<height ?t}" by simp
  from weathering_order_independent [OF wf d st, of 2000 "sconst 0.5"]
  have "fold (\<lambda>(x, y). weatherCell (demoMap hillTerrain) (snd (cloneTerrainModel hillStore ?t))
                (2000 * calculateTotalWeatheringRate (demoMap hillTerrain)) x y) ?cs
          (fst (cloneTerrainModel hillStore ?t))
       = weatherAll (demoMap hillTerrain) (snd (cloneTerrainModel hillStore ?t))
           (2000 * calculateTotalWeatheringRate (demoMap hillTerrain))
           (fst (cloneTerrainModel hillStore ?t))"
    unfolding Let_def by (rule conjunct1)
  with wf show ?thesis by (rule conjI)
qed

subsection \<open>The slope the two passes read\<close>

lemma calculateSlope_slopeDegrees:
  "calculateSlope s m x y
     = slopeDegrees (deref s (elevationData (elevation (datasets m))))
         (cellSize (elevation (datasets m))) x y"
  by (simp add: calculateSlope_def slopeDegrees_def Let_def power2_eq_square)

lemma hillClone_eq:
  "hillClone = (hillStore @ hillStore,
     \<lparr>width = 3, height = 3, cellSize = 1250, elevationData = [3, 4, 5]\<rparr>)"
  by (simp add: hillClone_def cloneTerrainModel_def Let_def deref_def hillStore_def
      hillTerrain_def upt_rec)

lemma hillClone_detached:
  "detached (fst hillClone) (elevation (datasets (demoMap hillTerrain))) (snd hillClone)"
proof -
  have "wf_terrain hillStore (elevation (datasets (demoMap hillTerrain)))" by (simp add: wf_hill)
  moreover have "cloneTerrainModel hillStore (elevation (datasets (demoMap hillTerrain)))
      = (fst hillClone, snd hillClone)" by (simp add: hillClone_def)
  ultimately show ?thesis by (rule cloneTerrainModel_detached(1))
qed

lemma hill_rows:
  "deref hillStore (elevationData hillTerrain) = [[0, 0, 0], [0, 1250, 2500], [0, 0, 0]]"
  by (simp add: deref_def hillStore_def hillTerrain_def)

lemma hillWeathered_base:
  "deref hillWeathered (elevationData (elevation (datasets (demoMap hillTerrain))))
     = deref hillStore (elevationData (elevation (datasets (demoMap hillTerrain))))"
proof -
  have "wf_terrain hillStore (elevation (datasets (demoMap hillTerrain)))" by (simp add: wf_hill)
  moreover have "cloneTerrainModel hillStore (elevation (datasets (demoMap hillTerrain)))
      = (fst hillClone, snd hillClone)" by (simp add: hillClone_def)
  ultimately have "deref (fst hillClone) (elevationData (elevation (datasets (demoMap hillTerrain))))
      = deref hillStore (elevationData (elevation (datasets (demoMap hillTerrain))))"
    by (rule cloneTerrainModel_detached(5))
  moreover have "deref hillWeathered (elevationData (elevation (datasets (demoMap hillTerrain))))
      = deref (fst hillClone) (elevationData (elevation (datasets (demoMap hillTerrain))))"
    unfolding hillWeathered_def by (rule weatherAll_fold(2) [OF hillClone_detached])
  ultimately show ?thesis by simp
qed

lemma hillWeathered_cell:
  assumes "y < 3" and "x < 3"
  shows "deref hillWeathered (elevationData (snd hillClone)) ! y ! x
     = deref hillStore (elevationData hillTerrain) ! y ! x
       - calculateCellWeathering hillStore (demoMap hillTerrain) x y 1"
proof -
  let ?m = "demoMap hillTerrain"
  have wf: "wf_terrain hillStore (elevation (datasets ?m))" by (simp add: wf_hill)
  have cl: "cloneTerrainModel hillStore (elevation (datasets ?m)) = (fst hillClone, snd hillClone)"
    by (simp add: hillClone_def)
  note c = cloneTerrainModel_detached [OF wf cl]
  have t: "height (snd hillClone) = 3" "width (snd hillClone) = 3"
    "length (elevationData (snd hillClone)) = 3"
    by (simp_all add: hillClone_eq)
  have w: "2000 * calculateTotalWeatheringRate ?m = 1" by (simp add: rate_demoMap)
  have "hillWeathered ! (elevationData (snd hillClone) ! y) ! x
      = fst hillClone ! (elevationData (snd hillClone) ! y) ! x
        - calculateCellWeathering (fst hillClone) ?m x y 1"
    unfolding hillWeathered_def w using assms by (intro weatherAll_cell [OF c(1)]) (simp_all add: t)
  moreover have "calculateCellWeathering (fst hillClone) ?m x y 1
      = calculateCellWeathering hillStore ?m x y 1"
    by (rule calculateCellWeathering_cong [OF c(5)])
  moreover have "deref (fst hillClone) (elevationData (snd hillClone)) ! y ! x
      = deref hillStore (elevationData (elevation (datasets ?m))) ! y ! x"
    by (simp only: c(4))
  ultimately show ?thesis using assms by (simp add: t)
qed

lemma hill_slope_read:
  "calculateSlope hillWeathered (demoMap hillTerrain) 1 1 = 45"
proof -
  have "calculateSlope hillWeathered (demoMap hillTerrain) 1 1
      = calculateSlope hillStore (demoMap hillTerrain) 1 1"
    by (rule calculateSlope_cong [OF hillWeathered_base])
  also have "\<dots> = 45"
  proof -
    have "cellSize hillTerrain = 1250" by (simp add: hillTerrain_def)
    then show ?thesis
      by (simp add: calculateSlope_def hill_rows Let_def arctan_one)
  qed
  finally show ?thesis .
qed

lemma hill_slope_state:
  "slopeDegrees (deref hillWeathered (elevationData (snd hillClone))) (cellSize (snd hillClone)) 1 1
     = arctan (4999 / 5000) * (180 / pi)"
proof -
  let ?m = "demoMap hillTerrain"
  let ?z = "deref hillWeathered (elevationData (snd hillClone))"
  have cs: "cellSize (snd hillClone) = 1250" by (simp add: hillClone_eq)
  have lz: "length ?z = 3" by (simp add: hillClone_eq)
  have "length (hillWeathered ! 3) = length (fst hillClone ! 3)"
    unfolding hillWeathered_def by (rule weatherAll_frame(2) [OF hillClone_detached])
  then have lz0: "length (?z ! 0) = 3"
    by (simp add: hillClone_eq hillStore_def deref_def)
  have cw: "calculateCellWeathering hillStore ?m (1 + 1) 1 1 = 3 / 2"
    "calculateCellWeathering hillStore ?m (1 - 1) 1 1 = 1"
    "calculateCellWeathering hillStore ?m 1 (1 + 1) 1 = 1"
    "calculateCellWeathering hillStore ?m 1 (1 - 1) 1 = 1"
    by (simp_all add: calculateCellWeathering_def calculateSlope_def calculateAspect_def
        hill_rows calculateElevationFactor_def Let_def)
  have c1: "?z ! 1 ! (1 + 1) = 4997 / 2"
  proof -
    have "?z ! 1 ! (1 + 1) = deref hillStore (elevationData hillTerrain) ! 1 ! (1 + 1)
        - calculateCellWeathering hillStore ?m (1 + 1) 1 1"
      by (rule hillWeathered_cell) simp_all
    then show ?thesis unfolding cw by (simp add: hill_rows)
  qed
  have c2: "?z ! 1 ! (1 - 1) = - 1"
  proof -
    have "?z ! 1 ! (1 - 1) = deref hillStore (elevationData hillTerrain) ! 1 ! (1 - 1)
        - calculateCellWeathering hillStore ?m (1 - 1) 1 1"
      by (rule hillWeathered_cell) simp_all
    then show ?thesis unfolding cw by (simp add: hill_rows)
  qed
  have c3: "?z ! (1 + 1) ! 1 = - 1"
  proof -
    have "?z ! (1 + 1) ! 1 = deref hillStore (elevationData hillTerrain) ! (1 + 1) ! 1
        - calculateCellWeathering hillStore ?m 1 (1 + 1) 1"
      by (rule hillWeathered_cell) simp_all
    then show ?thesis unfolding cw by (simp add: hill_rows)
  qed
  have c4: "?z ! (1 - 1) ! 1 = - 1"
  proof -
    have "?z ! (1 - 1) ! 1 = deref hillStore (elevationData hillTerrain) ! (1 - 1) ! 1
        - calculateCellWeathering hillStore ?m 1 (1 - 1) 1"
      by (rule hillWeathered_cell) simp_all
    then show ?thesis unfolding cw by (simp add: hill_rows)
  qed
  have inner: "\<not> ((1::nat) = 0 \<or> (1::nat) = 0 \<or> Suc 1 = length (?z ! 0) \<or> Suc 1 = length ?z)"
    by (simp only: lz lz0) simp
  have "slopeDegrees ?z (cellSize (snd hillClone)) 1 1
      = arctan (sqrt (((?z ! 1 ! (1 + 1) - ?z ! 1 ! (1 - 1)) / (2 * cellSize (snd hillClone)))\<^sup>2
          + ((?z ! (1 + 1) ! 1 - ?z ! (1 - 1) ! 1) / (2 * cellSize (snd hillClone)))\<^sup>2))
        * (180 / pi)"
    unfolding slopeDegrees_def Let_def using inner by (simp only: if_False)
  also have "sqrt (((?z ! 1 ! (1 + 1) - ?z ! 1 ! (1 - 1)) / (2 * cellSize (snd hillClone)))\<^sup>2
          + ((?z ! (1 + 1) ! 1 - ?z ! (1 - 1) ! 1) / (2 * cellSize (snd hillClone)))\<^sup>2)
      = 4999 / 5000"
    unfolding c1 c2 c3 c4 cs by (rule real_sqrt_unique) (simp_all add: power2_eq_square)
  finally show ?thesis .
qed

lemma simulateErosion_passes:
  "fst (simulateErosion rnd s m t years)
     = applyDeposition
         (applyErosion s m t
            (calculateFlowAccumulation (fst (calculateFlowDirections rnd t)) t) years)
         m t (calculateFlowAccumulation (fst (calculateFlowDirections rnd t)) t) years"
  by (simp add: simulateErosion_def Let_def split_def)

text \<open>
  The two passes on the ridge, where the terrain handed to \<^verbatim>\<open>simulateErosion\<close> is the base
  grid itself, so that each pass reads slopes of the grid it is changing. Fifty thousand
  years make the erosion rate \<open>5 / 2\<close> and the deposition rate \<open>1\<close>.
\<close>

lemma ridge_accumulation:
  "calculateFlowAccumulation flowDirections ridgeTerrain = replicate 3 (replicate 4 1)"
  by (simp add: calculateFlowAccumulation_def ridgeTerrain_def Let_def)

lemma steep_slope_no_deposit:
  assumes "1 \<le> x"
  shows "(arctan x * 180 / pi < 10) = False"
proof -
  have "pi / 4 \<le> arctan x"
    using assms arctan_monotone' [of 1 x] by (simp add: arctan_one)
  then have "45 \<le> arctan x * 180 / pi"
    by (simp add: field_simps)
  then show ?thesis
    by simp
qed

lemma applyErosion_ridge_rows:
  "applyErosion s (demoMap ridgeTerrain) ridgeTerrain acc 50000
   = fold (erodeCell (demoMap ridgeTerrain) ridgeTerrain acc (0.00005 * 50000) 2) [0..<4]
       (fold (erodeCell (demoMap ridgeTerrain) ridgeTerrain acc (0.00005 * 50000) 1) [0..<4]
         (fold (erodeCell (demoMap ridgeTerrain) ridgeTerrain acc (0.00005 * 50000) 0) [0..<4] s))"
proof -
  have "[0..<height ridgeTerrain] = [0, 1, 2]" "width ridgeTerrain = 4"
    by (simp_all add: ridgeTerrain_def upt_rec)
  then show ?thesis
    unfolding applyErosion_def Let_def by (simp only: fold_simps)
qed

lemma applyDeposition_ridge_rows:
  "applyDeposition s (demoMap ridgeTerrain) ridgeTerrain acc 50000
   = fold (depositCell (demoMap ridgeTerrain) ridgeTerrain acc (0.00002 * 50000) 2) [0..<4]
       (fold (depositCell (demoMap ridgeTerrain) ridgeTerrain acc (0.00002 * 50000) 1) [0..<4]
         (fold (depositCell (demoMap ridgeTerrain) ridgeTerrain acc (0.00002 * 50000) 0) [0..<4] s))"
proof -
  have "[0..<height ridgeTerrain] = [0, 1, 2]" "width ridgeTerrain = 4"
    by (simp_all add: ridgeTerrain_def upt_rec)
  then show ?thesis
    unfolding applyDeposition_def Let_def by (simp only: fold_simps)
qed

lemma ridge_erosion_rows:
  "fold (erodeCell (demoMap ridgeTerrain) ridgeTerrain (replicate 3 (replicate 4 1))
          (0.00005 * 50000) 0) [0..<4]
     [[0, 0, 0, 0], [0, 5 / 2, 0, 0], [1, 1, 1, 1]]
   = [[0, 0, 0, 0], [0, 5 / 2, 0, 0], [1, 1, 1, 1]]"
  "fold (erodeCell (demoMap ridgeTerrain) ridgeTerrain (replicate 3 (replicate 4 1))
          (0.00005 * 50000) 1) [0..<4]
     [[0, 0, 0, 0], [0, 5 / 2, 0, 0], [1, 1, 1, 1]]
   = [[0, 0, 0, 0], [0, 0, - (5 / 2), 0], [1, 1, 1, 1]]"
  "fold (erodeCell (demoMap ridgeTerrain) ridgeTerrain (replicate 3 (replicate 4 1))
          (0.00005 * 50000) 2) [0..<4]
     [[0, 0, 0, 0], [0, 0, - (5 / 2), 0], [1, 1, 1, 1]]
   = [[0, 0, 0, 0], [0, 0, - (5 / 2), 0], [1, 1, 1, 1]]"
  by (simp_all add: erodeCell_def subCell_def calculateSlope_def deref_def
      ridgeTerrain_def Let_def upt_rec arctan_one)

lemma ridge_deposition_rows:
  "fold (depositCell (demoMap ridgeTerrain) ridgeTerrain (replicate 3 (replicate 4 1))
          (0.00002 * 50000) 0) [0..<4]
     [[0, 0, 0, 0], [0, 0, - (5 / 2), 0], [1, 1, 1, 1]]
   = [[1, 1, 1, 1], [0, 0, - (5 / 2), 0], [1, 1, 1, 1]]"
  "fold (depositCell (demoMap ridgeTerrain) ridgeTerrain (replicate 3 (replicate 4 1))
          (0.00002 * 50000) 1) [0..<4]
     [[1, 1, 1, 1], [0, 0, - (5 / 2), 0], [1, 1, 1, 1]]
   = [[1, 1, 1, 1], [1, 0, - (3 / 2), 1], [1, 1, 1, 1]]"
  "fold (depositCell (demoMap ridgeTerrain) ridgeTerrain (replicate 3 (replicate 4 1))
          (0.00002 * 50000) 2) [0..<4]
     [[1, 1, 1, 1], [1, 0, - (3 / 2), 1], [1, 1, 1, 1]]
   = [[1, 1, 1, 1], [1, 0, - (3 / 2), 1], [2, 2, 2, 2]]"
  by (simp_all add: depositCell_def addCell_def calculateSlope_def deref_def
      ridgeTerrain_def Let_def upt_rec arctan_one steep_slope_no_deposit)

lemma ridge_deposition_first_rows:
  "fold (depositCell (demoMap ridgeTerrain) ridgeTerrain (replicate 3 (replicate 4 1))
          (0.00002 * 50000) 0) [0..<4]
     [[0, 0, 0, 0], [0, 5 / 2, 0, 0], [1, 1, 1, 1]]
   = [[1, 1, 1, 1], [0, 5 / 2, 0, 0], [1, 1, 1, 1]]"
  "fold (depositCell (demoMap ridgeTerrain) ridgeTerrain (replicate 3 (replicate 4 1))
          (0.00002 * 50000) 1) [0..<4]
     [[1, 1, 1, 1], [0, 5 / 2, 0, 0], [1, 1, 1, 1]]
   = [[1, 1, 1, 1], [1, 5 / 2, 0, 1], [1, 1, 1, 1]]"
  "fold (depositCell (demoMap ridgeTerrain) ridgeTerrain (replicate 3 (replicate 4 1))
          (0.00002 * 50000) 2) [0..<4]
     [[1, 1, 1, 1], [1, 5 / 2, 0, 1], [1, 1, 1, 1]]
   = [[1, 1, 1, 1], [1, 5 / 2, 0, 1], [2, 2, 2, 2]]"
  by (simp_all add: depositCell_def addCell_def calculateSlope_def deref_def
      ridgeTerrain_def Let_def upt_rec arctan_one steep_slope_no_deposit)

lemma ridge_erosion_after_deposition_rows:
  "fold (erodeCell (demoMap ridgeTerrain) ridgeTerrain (replicate 3 (replicate 4 1))
          (0.00005 * 50000) 0) [0..<4]
     [[1, 1, 1, 1], [1, 5 / 2, 0, 1], [2, 2, 2, 2]]
   = [[1, 1, 1, 1], [1, 5 / 2, 0, 1], [2, 2, 2, 2]]"
  "fold (erodeCell (demoMap ridgeTerrain) ridgeTerrain (replicate 3 (replicate 4 1))
          (0.00005 * 50000) 1) [0..<4]
     [[1, 1, 1, 1], [1, 5 / 2, 0, 1], [2, 2, 2, 2]]
   = [[1, 1, 1, 1],
      [1, 5 / 2 - 10 * arctan (sqrt 2) / pi,
       - (10 * arctan (sqrt ((10 * arctan (sqrt 2) / pi - 3 / 2)
                               * (10 * arctan (sqrt 2) / pi - 3 / 2) + 1)) / pi), 1],
      [2, 2, 2, 2]]"
  "fold (erodeCell (demoMap ridgeTerrain) ridgeTerrain (replicate 3 (replicate 4 1))
          (0.00005 * 50000) 2) [0..<4]
     [[1, 1, 1, 1], [1, a, b, 1], [2, 2, 2, 2]]
   = [[1, 1, 1, 1], [1, a, b, 1], [2, 2, 2, 2]]"
  by (simp_all add: erodeCell_def subCell_def calculateSlope_def deref_def
      ridgeTerrain_def Let_def upt_rec arctan_one)

lemma ridge_erosion_first:
  "applyErosion ridgeStore (demoMap ridgeTerrain) ridgeTerrain (replicate 3 (replicate 4 1)) 50000
   = [[0, 0, 0, 0], [0, 0, - (5 / 2), 0], [1, 1, 1, 1]]"
  by (simp only: applyErosion_ridge_rows ridgeStore_def ridge_erosion_rows)

lemma ridge_erosion_then_deposition:
  "applyDeposition [[0, 0, 0, 0], [0, 0, - (5 / 2), 0], [1, 1, 1, 1]]
     (demoMap ridgeTerrain) ridgeTerrain (replicate 3 (replicate 4 1)) 50000
   = [[1, 1, 1, 1], [1, 0, - (3 / 2), 1], [2, 2, 2, 2]]"
  by (simp only: applyDeposition_ridge_rows ridge_deposition_rows)

lemma ridge_deposition_first:
  "applyDeposition ridgeStore (demoMap ridgeTerrain) ridgeTerrain (replicate 3 (replicate 4 1)) 50000
   = [[1, 1, 1, 1], [1, 5 / 2, 0, 1], [2, 2, 2, 2]]"
  by (simp only: applyDeposition_ridge_rows ridgeStore_def ridge_deposition_first_rows)

lemma ridge_deposition_then_erosion:
  "applyErosion [[1, 1, 1, 1], [1, 5 / 2, 0, 1], [2, 2, 2, 2]]
     (demoMap ridgeTerrain) ridgeTerrain (replicate 3 (replicate 4 1)) 50000 ! 1 ! 1
   = 5 / 2 - 10 * arctan (sqrt 2) / pi"
  by (simp only: applyErosion_ridge_rows ridge_erosion_after_deposition_rows) simp

lemma ridge_middle_below_zero:
  "5 / 2 - 10 * arctan (sqrt 2) / pi < 0"
proof -
  have "(1::real) < sqrt 2" by simp
  then have "arctan 1 < arctan (sqrt 2)" by (simp only: arctan_less_iff)
  then have "pi / 4 < arctan (sqrt 2)" by (simp only: arctan_one)
  then show ?thesis by (simp add: field_simps)
qed

lemma ridge_orders:
  "fst (simulateErosion rnd ridgeStore (demoMap ridgeTerrain) ridgeTerrain 50000)
     = [[1, 1, 1, 1], [1, 0, - (3 / 2), 1], [2, 2, 2, 2]]"
  "applyErosion
      (applyDeposition ridgeStore (demoMap ridgeTerrain) ridgeTerrain
         (calculateFlowAccumulation (fst (calculateFlowDirections rnd ridgeTerrain)) ridgeTerrain)
         50000)
      (demoMap ridgeTerrain) ridgeTerrain
      (calculateFlowAccumulation (fst (calculateFlowDirections rnd ridgeTerrain)) ridgeTerrain)
      50000 ! 1 ! 1 < 0"
proof -
  show "fst (simulateErosion rnd ridgeStore (demoMap ridgeTerrain) ridgeTerrain 50000)
     = [[1, 1, 1, 1], [1, 0, - (3 / 2), 1], [2, 2, 2, 2]]"
    by (simp only: simulateErosion_passes ridge_accumulation ridge_erosion_first
        ridge_erosion_then_deposition)
  show "applyErosion
      (applyDeposition ridgeStore (demoMap ridgeTerrain) ridgeTerrain
         (calculateFlowAccumulation (fst (calculateFlowDirections rnd ridgeTerrain)) ridgeTerrain)
         50000)
      (demoMap ridgeTerrain) ridgeTerrain
      (calculateFlowAccumulation (fst (calculateFlowDirections rnd ridgeTerrain)) ridgeTerrain)
      50000 ! 1 ! 1 < 0"
    by (simp only: ridge_accumulation ridge_deposition_first ridge_deposition_then_erosion
        ridge_middle_below_zero)
qed

text \<open>
  C1, as amended. In \<^verbatim>\<open>simulateErosion\<close> the erosion pass runs to its end before the
  deposition pass starts: for every store, map and terrain, the store it leaves is the
  one the deposition pass makes of the store the whole erosion pass left. The order
  shows where the terrain is the base grid itself: on the ridge the middle cell
  \<open>(1, 1)\<close> ends at 0, and would end below 0 had the deposition pass run first. Each pass
  computes the slope again for each cell, and computes it from the base grid
  \<^verbatim>\<open>this.datasets.elevation\<close>, not from the terrain it is changing: on a clone, the slope
  the deposition pass reads at a cell is the slope the erosion pass read there, the
  slope of the base grid.
\<close>

theorem passes_read_base_slope:
  "(let acc = calculateFlowAccumulation (fst (calculateFlowDirections rnd t)) t;
        s1 = applyErosion s m t acc years;
        slope = slopeDegrees (deref s (elevationData (elevation (datasets m))))
                  (cellSize (elevation (datasets m))) x y
    in fst (simulateErosion rnd s m t years) = applyDeposition s1 m t acc years
     \<and> calculateSlope s m x y = slope
     \<and> (detached s (elevation (datasets m)) t \<and> y < height t \<and> x < width t \<longrightarrow>
          calculateSlope s1 m x y = slope
        \<and> s1 ! (elevationData t ! y) ! x
            = s ! (elevationData t ! y) ! x - 0.00005 * years * (slope / 45)
        \<and> applyDeposition s1 m t acc years ! (elevationData t ! y) ! x
            = s1 ! (elevationData t ! y) ! x
              + (if slope < 10 then max 0 (0.00002 * years * (1 - slope / 90)) else 0)))
   \<and> (let acc = calculateFlowAccumulation (fst (calculateFlowDirections rnd ridgeTerrain))
                  ridgeTerrain;
          depositedFirst = applyErosion
            (applyDeposition ridgeStore (demoMap ridgeTerrain) ridgeTerrain acc 50000)
            (demoMap ridgeTerrain) ridgeTerrain acc 50000
      in fst (simulateErosion rnd ridgeStore (demoMap ridgeTerrain) ridgeTerrain 50000)
           = [[1, 1, 1, 1], [1, 0, - (3 / 2), 1], [2, 2, 2, 2]]
       \<and> depositedFirst ! 1 ! 1 < 0
       \<and> fst (simulateErosion rnd ridgeStore (demoMap ridgeTerrain) ridgeTerrain 50000)
           \<noteq> depositedFirst)"
proof -
  let ?acc = "calculateFlowAccumulation (fst (calculateFlowDirections rnd t)) t"
  let ?s1 = "applyErosion s m t ?acc years"
  let ?slope = "slopeDegrees (deref s (elevationData (elevation (datasets m))))
                  (cellSize (elevation (datasets m))) x y"
  have 1: "fst (simulateErosion rnd s m t years) = applyDeposition ?s1 m t ?acc years"
    by (rule simulateErosion_passes)
  have 2: "calculateSlope s m x y = ?slope"
    by (rule calculateSlope_slopeDegrees)
  have 3: "calculateSlope ?s1 m x y = ?slope
      \<and> ?s1 ! (elevationData t ! y) ! x
          = s ! (elevationData t ! y) ! x - 0.00005 * years * (?slope / 45)
      \<and> applyDeposition ?s1 m t ?acc years ! (elevationData t ! y) ! x
          = ?s1 ! (elevationData t ! y) ! x
            + (if ?slope < 10 then max 0 (0.00002 * years * (1 - ?slope / 90)) else 0)"
    if d: "detached s (elevation (datasets m)) t" and y: "y < height t" and x: "x < width t"
  proof -
    have acc: "?acc ! y ! x = 1"
      using y x by (simp add: calculateFlowAccumulation_const)
    have d1: "detached ?s1 (elevation (datasets m)) t"
      by (rule detached_applyErosion [OF d])
    have "calculateSlope ?s1 m x y = calculateSlope s m x y"
      by (rule calculateSlope_cong) (rule applyErosion_fold(2) [OF d])
    with 2 have a: "calculateSlope ?s1 m x y = ?slope" by simp
    have b: "?s1 ! (elevationData t ! y) ! x
        = s ! (elevationData t ! y) ! x - 0.00005 * years * (?slope / 45)"
      by (simp add: applyErosion_cell [OF d y x] acc 2)
    have c: "applyDeposition ?s1 m t ?acc years ! (elevationData t ! y) ! x
        = ?s1 ! (elevationData t ! y) ! x
          + (if ?slope < 10 then max 0 (0.00002 * years * (1 - ?slope / 90)) else 0)"
      by (simp add: applyDeposition_cell [OF d1 y x] acc a)
    show ?thesis using a b c by (intro conjI)
  qed
  let ?racc = "calculateFlowAccumulation (fst (calculateFlowDirections rnd ridgeTerrain))
                 ridgeTerrain"
  let ?df = "applyErosion
            (applyDeposition ridgeStore (demoMap ridgeTerrain) ridgeTerrain ?racc 50000)
            (demoMap ridgeTerrain) ridgeTerrain ?racc 50000"
  let ?ef = "fst (simulateErosion rnd ridgeStore (demoMap ridgeTerrain) ridgeTerrain 50000)"
  have 4: "?ef = [[1, 1, 1, 1], [1, 0, - (3 / 2), 1], [2, 2, 2, 2]]"
    by (rule ridge_orders(1))
  have 5: "?df ! 1 ! 1 < 0"
    by (rule ridge_orders(2))
  have "?ef ! 1 ! 1 = 0"
    unfolding 4 by simp
  with 5 have 6: "?ef \<noteq> ?df"
    by auto
  show ?thesis
    unfolding Let_def using 1 2 3 4 5 6 by (intro conjI impI) simp_all
qed

theorem passes_read_base_slope_witness:
  "detached hillWeathered (elevation (datasets (demoMap hillTerrain))) (snd hillClone)
   \<and> calculateSlope
        (applyErosion hillWeathered (demoMap hillTerrain) (snd hillClone)
           (calculateFlowAccumulation (fst (calculateFlowDirections (sconst 0.5) (snd hillClone)))
              (snd hillClone)) 2000)
        (demoMap hillTerrain) 1 1
       = calculateSlope hillWeathered (demoMap hillTerrain) 1 1"
proof -
  have d: "detached hillWeathered (elevation (datasets (demoMap hillTerrain))) (snd hillClone)"
    unfolding hillWeathered_def by (rule detached_weatherAll [OF hillClone_detached])
  have yx: "1 < height (snd hillClone)" "1 < width (snd hillClone)"
    by (simp_all add: hillClone_eq)
  from passes_read_base_slope [where rnd = "sconst 0.5" and s = hillWeathered
      and m = "demoMap hillTerrain" and t = "snd hillClone" and years = 2000
      and x = 1 and y = 1] d yx
  have "calculateSlope
        (applyErosion hillWeathered (demoMap hillTerrain) (snd hillClone)
           (calculateFlowAccumulation (fst (calculateFlowDirections (sconst 0.5) (snd hillClone)))
              (snd hillClone)) 2000)
        (demoMap hillTerrain) 1 1
       = calculateSlope hillWeathered (demoMap hillTerrain) 1 1"
    unfolding Let_def by simp
  with d show ?thesis by (rule conjI)
qed

text \<open>
  C1, as stated, fails. Projecting the hill 2000 years, the erosion pass starts in the
  store \<open>hillWeathered\<close>. At the middle cell it reads the slope 45, the slope of the base
  grid; the slope of the terrain as it stands at the start of the pass is another.
\<close>

theorem pass_start_slope_counterexample:
  "fst (snd (projectWeathering (sconst 0.5) hillStore (demoMap hillTerrain) 2000))
     = fst (simulateErosion (sconst 0.5) hillWeathered (demoMap hillTerrain) (snd hillClone) 2000)
   \<and> calculateSlope hillWeathered (demoMap hillTerrain) 1 1 = 45
   \<and> slopeDegrees (deref hillWeathered (elevationData (snd hillClone)))
        (cellSize (snd hillClone)) 1 1 < 45
   \<and> calculateSlope hillWeathered (demoMap hillTerrain) 1 1
       \<noteq> slopeDegrees (deref hillWeathered (elevationData (snd hillClone)))
            (cellSize (snd hillClone)) 1 1"
proof -
  have 1: "fst (snd (projectWeathering (sconst 0.5) hillStore (demoMap hillTerrain) 2000))
     = fst (simulateErosion (sconst 0.5) hillWeathered (demoMap hillTerrain) (snd hillClone) 2000)"
    by (simp add: projectWeathering_store hillWeathered_def hillClone_def split_def)
  have "arctan (4999 / 5000) < arctan 1" by (simp add: arctan_less_iff)
  then have "arctan (4999 / 5000) < pi / 4" by (simp only: arctan_one)
  then have "arctan (4999 / 5000) * (180 / pi) < pi / 4 * (180 / pi)"
    by (rule mult_strict_right_mono) simp
  then have 2: "slopeDegrees (deref hillWeathered (elevationData (snd hillClone)))
        (cellSize (snd hillClone)) 1 1 < 45"
    unfolding hill_slope_state by simp
  then have 3: "calculateSlope hillWeathered (demoMap hillTerrain) 1 1
       \<noteq> slopeDegrees (deref hillWeathered (elevationData (snd hillClone)))
            (cellSize (snd hillClone)) 1 1"
    unfolding hill_slope_read by simp
  show ?thesis using 1 hill_slope_read 2 3 by (intro conjI)
qed

subsection \<open>Mineral reactivity\<close>














subsection \<open>Mineral reactivity in double precision\<close>







end
